theory Spec2Isabelle
  imports Complex_Main "HOL-Library.Word" "HOL-Library.Signed_Division"
begin

unbundle bit_operations_syntax

section \<open>Machine integers of the Go source\<close>

text \<open>
  The fixed-width integers of \<^verbatim>\<open>blockchain/difficulty.go\<close> are words: \<open>+\<close>, \<open>-\<close> and
  \<open>*\<close> wrap around as Go's do. Signed comparisons are \<open><s\<close> and \<open>\<le>s\<close>, the signed
  value is \<open>sint\<close>. \<^verbatim>\<open>*big.Int\<close> is \<open>int\<close>.
\<close>

type_synonym uint16 = "16 word"
type_synonym uint32 = "32 word"
type_synonym uint64 = "64 word"
type_synonym int32 = "32 word"
type_synonym int64 = "64 word"

text \<open>
  Go's \<^verbatim>\<open>/\<close> and \<^verbatim>\<open>%\<close> on signed integers truncate towards zero, and the most negative
  value divided by \<open>-1\<close> wraps. A zero divisor is a run-time panic: every caller below
  tests the divisor first and returns the panic as an error value.
\<close>

definition sdiv64 :: "int64 \<Rightarrow> int64 \<Rightarrow> int64" where
  "sdiv64 a b = word_of_int (sint a sdiv sint b)"

definition smod32 :: "int32 \<Rightarrow> int32 \<Rightarrow> int32" where
  "smod32 a b = word_of_int (sint a smod sint b)"

text \<open>
  \<^verbatim>\<open>(*big.Int).Div\<close> is Euclidean division: the remainder is never negative. The zero
  divisor (a panic) is tested by the callers.
\<close>

definition big_Div :: "int \<Rightarrow> int \<Rightarrow> int" where
  "big_Div x y = sgn y * (x div \<bar>y\<bar>)"

text \<open>\<^verbatim>\<open>d / time.Second\<close> for a \<^verbatim>\<open>time.Duration\<close> \<open>d\<close> (an \<^verbatim>\<open>int64\<close> of nanoseconds).\<close>

definition seconds :: "int64 \<Rightarrow> int64" where
  "seconds d = sdiv64 d 1000000000"

section \<open>Errors\<close>

text \<open>
  \<open>AssertError\<close> is the error value the source returns; the other two are the run-time
  panics the source can raise (a method call on a nil \<^verbatim>\<open>HeaderCtx\<close>, a zero divisor).
\<close>

datatype error = AssertError string | NilDereference | DivideByZero

section \<open>The compact target codec\<close>

text \<open>\<^verbatim>\<open>len(n.Bytes())\<close>: the number of bytes of the magnitude, 0 for 0.\<close>

fun byte_len :: "nat \<Rightarrow> nat" where
  "byte_len n = (if n = 0 then 0 else byte_len (n div 256) + 1)"

declare byte_len.simps [simp del]

definition CompactToBig :: "uint32 \<Rightarrow> int" where
  "CompactToBig compact' =
     (let mantissa = compact' AND 0x007fffff;
          isNegative = (compact' AND 0x00800000 \<noteq> 0);
          exponent = unat (drop_bit 24 compact');
          bn = (if exponent \<le> 3
                then uint (drop_bit (8 * (3 - exponent)) mantissa)
                else push_bit (8 * (exponent - 3)) (uint mantissa))
      in if isNegative then - bn else bn)"

text \<open>
  \<^verbatim>\<open>n.Bits()[0]\<close> is the low machine word of the magnitude, \<^verbatim>\<open>Rsh\<close> on a \<^verbatim>\<open>big.Int\<close>
  is an arithmetic shift (\<open>drop_bit\<close> on \<open>int\<close>), and \<^verbatim>\<open>uint32(exponent<<24)\<close> keeps the
  low 32 bits.
\<close>

definition BigToCompact :: "int \<Rightarrow> uint32" where
  "BigToCompact n =
     (if n = 0 then 0
      else
        let exponent = byte_len (nat \<bar>n\<bar>);
            mantissa = (if exponent \<le> 3
                        then push_bit (8 * (3 - exponent)) (word_of_int \<bar>n\<bar> :: uint32)
                        else word_of_int \<bar>drop_bit (8 * (exponent - 3)) n\<bar>);
            carry = (mantissa AND 0x00800000 \<noteq> 0);
            mantissa = (if carry then drop_bit 8 mantissa else mantissa);
            exponent = (if carry then exponent + 1 else exponent);
            compact' = push_bit 24 (word_of_nat exponent :: uint32) OR mantissa
        in if n < 0 then compact' OR 0x00800000 else compact')"

definition CalcWork :: "uint32 \<Rightarrow> int" where
  "CalcWork bits =
     (let difficultyNum = CompactToBig bits
      in if difficultyNum \<le> 0 then 0
         else big_Div (2 ^ 256) (difficultyNum + 1))"

section \<open>Headers, parameters and the chain context\<close>

text \<open>
  Modelled from the spec: the declaration of the \<^verbatim>\<open>HeaderCtx\<close> interface is not among the
  sources. A header exposes its height (\<^verbatim>\<open>int32\<close>), its timestamp (Unix seconds,
  \<^verbatim>\<open>int64\<close>), its compact bits and its parent, absent at the root of the supplied chain.
\<close>

datatype HeaderCtx =
  HeaderCtx (Height: int32) (Timestamp: int64) (Bits: uint32) (Parent: "HeaderCtx option")

text \<open>
  Modelled from the spec: \<^verbatim>\<open>RelativeAncestorCtx\<close> is a method of that interface; it walks
  back \<open>distance\<close> generations and is absent when the chain is too short. No header lies
  a negative number of generations back.
\<close>

fun ancestor :: "HeaderCtx \<Rightarrow> nat \<Rightarrow> HeaderCtx option" where
  "ancestor node 0 = Some node"
| "ancestor node (Suc k) = (case Parent node of None \<Rightarrow> None | Some p \<Rightarrow> ancestor p k)"

definition RelativeAncestorCtx :: "HeaderCtx \<Rightarrow> int32 \<Rightarrow> HeaderCtx option" where
  "RelativeAncestorCtx node distance =
     (if distance <s 0 then None else ancestor node (nat (sint distance)))"

text \<open>The difficulty fields of \<^verbatim>\<open>chaincfg.Params\<close>; durations are nanoseconds.\<close>

record Params =
  PowLimit :: int
  PowLimitBits :: uint32
  PoWNoRetargeting :: bool
  TargetTimespan :: int64
  TargetTimePerBlock :: int64
  RetargetAdjustmentFactor :: int64
  ReduceMinDifficulty :: bool
  MinDiffReductionTime :: int64
  LWMAHeight :: int32
  LWMAFixHeight :: int32
  LWMAWindow :: int64
  ASERTHeight :: int32
  ASERTHalfLife :: int64
  ASERTAnchorBits :: uint32

text \<open>
  Modelled from the spec: the \<^verbatim>\<open>ChainCtx\<close> interface (its declaration is not among the
  sources) gives the parameters and three derived quantities.
\<close>

record ChainCtx =
  ChainParams :: Params
  BlocksPerRetarget :: int32
  MinRetargetTimespan :: int64
  MaxRetargetTimespan :: int64

section \<open>The legacy retarget\<close>

function findPrevTestNetDifficulty_loop :: "HeaderCtx \<Rightarrow> ChainCtx \<Rightarrow> error + HeaderCtx option" where
  "findPrevTestNetDifficulty_loop iterNode c =
     (if BlocksPerRetarget c = 0 then Inl DivideByZero
      else if smod32 (Height iterNode) (BlocksPerRetarget c) \<noteq> 0
              \<and> Bits iterNode = PowLimitBits (ChainParams c)
      then (case Parent iterNode of
              None \<Rightarrow> Inr None
            | Some p \<Rightarrow> findPrevTestNetDifficulty_loop p c)
      else Inr (Some iterNode))"
  by pat_completeness auto
termination
proof (relation "measure (\<lambda>(n, c). size n)")
  show "wf (measure (\<lambda>(n, c). size n))" by simp
next
  fix iterNode :: HeaderCtx and c :: ChainCtx and p
  assume "Parent iterNode = Some p"
  then show "((p, c), (iterNode, c)) \<in> measure (\<lambda>(n, c). size n)"
    by (cases iterNode) simp
qed

declare findPrevTestNetDifficulty_loop.simps [simp del]

definition findPrevTestNetDifficulty :: "HeaderCtx \<Rightarrow> ChainCtx \<Rightarrow> error + uint32" where
  "findPrevTestNetDifficulty startNode c =
     (case findPrevTestNetDifficulty_loop startNode c of
        Inl e \<Rightarrow> Inl e
      | Inr None \<Rightarrow> Inr (PowLimitBits (ChainParams c))
      | Inr (Some iterNode) \<Rightarrow> Inr (Bits iterNode))"

text \<open>
  Lines 289 to 331 of \<^verbatim>\<open>calcNextRequiredDifficulty\<close>: the retarget once the first node
  of the window has been looked up. \<^verbatim>\<open>newTarget.Div\<close> panics on a target timespan of zero
  seconds.
\<close>

definition retargetFrom :: "HeaderCtx option \<Rightarrow> HeaderCtx \<Rightarrow> ChainCtx \<Rightarrow> error + uint32" where
  "retargetFrom first lastNode c =
     (case first of
        None \<Rightarrow> Inl (AssertError ''unable to obtain previous retarget block'')
      | Some firstNode \<Rightarrow>
          let actualTimespan = Timestamp lastNode - Timestamp firstNode;
              adjustedTimespan =
                (if actualTimespan <s MinRetargetTimespan c then MinRetargetTimespan c
                 else if MaxRetargetTimespan c <s actualTimespan then MaxRetargetTimespan c
                 else actualTimespan);
              oldTarget = CompactToBig (Bits lastNode);
              newTarget = oldTarget * sint adjustedTimespan;
              targetTimeSpan = seconds (TargetTimespan (ChainParams c))
          in if targetTimeSpan = 0 then Inl DivideByZero
             else
               let newTarget = big_Div newTarget (sint targetTimeSpan);
                   newTarget = (if PowLimit (ChainParams c) < newTarget
                                then PowLimit (ChainParams c) else newTarget)
               in Inr (BigToCompact newTarget))"

text \<open>
  Lines 249 to 331 of \<^verbatim>\<open>calcNextRequiredDifficulty\<close>: the original retarget algorithm,
  reached when no later algorithm is selected. The remainder by
  \<^verbatim>\<open>c.BlocksPerRetarget()\<close> panics when that is zero.
\<close>

definition legacyRetarget :: "HeaderCtx \<Rightarrow> int64 \<Rightarrow> ChainCtx \<Rightarrow> error + uint32" where
  "legacyRetarget lastNode newBlockTime c =
     (if BlocksPerRetarget c = 0 then Inl DivideByZero
      else if smod32 (Height lastNode + 1) (BlocksPerRetarget c) \<noteq> 0 then
        (if ReduceMinDifficulty (ChainParams c) then
           let reductionTime = seconds (MinDiffReductionTime (ChainParams c));
               allowMinTime = Timestamp lastNode + reductionTime
           in if allowMinTime <s newBlockTime then Inr (PowLimitBits (ChainParams c))
              else findPrevTestNetDifficulty lastNode c
         else Inr (Bits lastNode))
      else
        let blocksPerRetarget =
              (if Height lastNode + 1 \<noteq> BlocksPerRetarget c
               then BlocksPerRetarget c else BlocksPerRetarget c - 1)
        in retargetFrom (RelativeAncestorCtx lastNode blocksPerRetarget) lastNode c)"

section \<open>LWMA\<close>

text \<open>
  The summation loop shared by both LWMA variants:
  \<^verbatim>\<open>for i := blocks; i >= 1; i-- { prev := block.Parent(); if prev == nil { break } ... }\<close>.
  It returns \<open>(sumWeightedSolvetimes, sumWeights)\<close>.
\<close>

function lwmaLoop :: "int64 \<Rightarrow> HeaderCtx \<Rightarrow> int64 \<Rightarrow> int64 \<Rightarrow> int64 \<Rightarrow> int64 \<times> int64" where
  "lwmaLoop T block i sumWeightedSolvetimes sumWeights =
     (if 1 \<le>s i then
        (case Parent block of
           None \<Rightarrow> (sumWeightedSolvetimes, sumWeights)
         | Some prev \<Rightarrow>
             let solvetime = Timestamp block - Timestamp prev;
                 solvetime = (if solvetime <s 1 then 1 else solvetime);
                 solvetime = (if 6 * T <s solvetime then 6 * T else solvetime)
             in lwmaLoop T prev (i - 1)
                  (sumWeightedSolvetimes + solvetime * i) (sumWeights + i))
      else (sumWeightedSolvetimes, sumWeights))"
  by pat_completeness auto
termination
proof (relation "measure (\<lambda>(T, block, i, a, b). size block)")
  show "wf (measure (\<lambda>(T, block, i, a, b). size block))" by simp
next
  fix T :: int64 and block :: HeaderCtx and i a b :: int64 and prev x xa
  assume "Parent block = Some prev"
  then show "((T, prev, i - 1, a + xa * i, b + i), (T, block, i, a, b))
               \<in> measure (\<lambda>(T, block, i, a, b). size block)"
    by (cases block) simp
qed

declare lwmaLoop.simps [simp del]

text \<open>
  The window length, \<^verbatim>\<open>blocks\<close>, which both LWMA variants compute in the same way
  (lines 345 to 349 and 417 to 421).
\<close>

definition lwmaBlocks :: "HeaderCtx \<Rightarrow> Params \<Rightarrow> int64" where
  "lwmaBlocks lastNode params =
     (let N = LWMAWindow params;
          height = scast (Height lastNode) + 1;
          blocks = height - scast (LWMAHeight params)
      in if N <s blocks then N else blocks)"

text \<open>
  In both variants \<^verbatim>\<open>nextTarget.Div\<close> panics when \<^verbatim>\<open>expectedWeightedSolvetimes\<close> is
  zero.
\<close>

definition calcNextRequiredDifficultyLWMA :: "HeaderCtx \<Rightarrow> ChainCtx \<Rightarrow> error + uint32" where
  "calcNextRequiredDifficultyLWMA lastNode c =
     (let params = ChainParams c;
          T = seconds (TargetTimePerBlock params);
          blocks = lwmaBlocks lastNode params
      in if blocks <s 3 then Inr (Bits lastNode)
         else
           let prevTarget = CompactToBig (Bits lastNode);
               (sumWeightedSolvetimes, sumWeights) = lwmaLoop T lastNode blocks 0 0;
               expectedWeightedSolvetimes = sumWeights * T;
               minWS = sdiv64 expectedWeightedSolvetimes 10;
               maxWS = expectedWeightedSolvetimes * 10;
               sumWeightedSolvetimes =
                 (if sumWeightedSolvetimes <s minWS then minWS else sumWeightedSolvetimes);
               sumWeightedSolvetimes =
                 (if maxWS <s sumWeightedSolvetimes then maxWS else sumWeightedSolvetimes);
               nextTarget = prevTarget * sint sumWeightedSolvetimes
           in if expectedWeightedSolvetimes = 0 then Inl DivideByZero
              else
                let nextTarget = big_Div nextTarget (sint expectedWeightedSolvetimes);
                    nextTarget = (if PowLimit params < nextTarget then PowLimit params
                                  else nextTarget)
                in Inr (BigToCompact nextTarget))"

text \<open>
  \<^verbatim>\<open>for i := int64(0); i < blocks; i++ { prev := windowStart.Parent(); if prev == nil
  { break }; windowStart = prev }\<close>
\<close>

function windowStartLoop :: "HeaderCtx \<Rightarrow> int64 \<Rightarrow> int64 \<Rightarrow> HeaderCtx" where
  "windowStartLoop windowStart i blocks =
     (if i <s blocks then
        (case Parent windowStart of
           None \<Rightarrow> windowStart
         | Some prev \<Rightarrow> windowStartLoop prev (i + 1) blocks)
      else windowStart)"
  by pat_completeness auto
termination
proof (relation "measure (\<lambda>(w, i, blocks). size w)")
  show "wf (measure (\<lambda>(w, i, blocks). size w))" by simp
next
  fix windowStart :: HeaderCtx and i blocks :: int64 and prev
  assume "Parent windowStart = Some prev"
  then show "((prev, i + 1, blocks), (windowStart, i, blocks))
               \<in> measure (\<lambda>(w, i, blocks). size w)"
    by (cases windowStart) simp
qed

declare windowStartLoop.simps [simp del]

definition calcNextRequiredDifficultyLWMAv2 :: "HeaderCtx \<Rightarrow> ChainCtx \<Rightarrow> error + uint32" where
  "calcNextRequiredDifficultyLWMAv2 lastNode c =
     (let params = ChainParams c;
          T = seconds (TargetTimePerBlock params);
          blocks = lwmaBlocks lastNode params
      in if blocks <s 3 then Inr (Bits lastNode)
         else
           let windowStart = windowStartLoop lastNode 0 blocks;
               referenceTarget = CompactToBig (Bits windowStart);
               (sumWeightedSolvetimes, sumWeights) = lwmaLoop T lastNode blocks 0 0;
               expectedWeightedSolvetimes = sumWeights * T;
               minWS = sdiv64 expectedWeightedSolvetimes 3;
               maxWS = expectedWeightedSolvetimes * 3;
               sumWeightedSolvetimes =
                 (if sumWeightedSolvetimes <s minWS then minWS else sumWeightedSolvetimes);
               sumWeightedSolvetimes =
                 (if maxWS <s sumWeightedSolvetimes then maxWS else sumWeightedSolvetimes);
               nextTarget = referenceTarget * sint sumWeightedSolvetimes
           in if expectedWeightedSolvetimes = 0 then Inl DivideByZero
              else
                let nextTarget = big_Div nextTarget (sint expectedWeightedSolvetimes);
                    nextTarget = (if PowLimit params < nextTarget then PowLimit params
                                  else nextTarget)
                in Inr (BigToCompact nextTarget))"

section \<open>ASERT\<close>

text \<open>
  \<^verbatim>\<open>for anchor.Height() > params.ASERTHeight { anchor = anchor.Parent() }\<close>: the loop has
  no nil test, so once the parent is absent the next \<^verbatim>\<open>anchor.Height()\<close> is a call on a
  nil interface value.
\<close>

function findAnchor :: "int32 \<Rightarrow> HeaderCtx \<Rightarrow> error + HeaderCtx" where
  "findAnchor asertHeight anchor =
     (if asertHeight <s Height anchor then
        (case Parent anchor of
           None \<Rightarrow> Inl NilDereference
         | Some p \<Rightarrow> findAnchor asertHeight p)
      else Inr anchor)"
  by pat_completeness auto
termination
proof (relation "measure (\<lambda>(h, a). size a)")
  show "wf (measure (\<lambda>(h, a). size a))" by simp
next
  fix asertHeight :: int32 and anchor :: HeaderCtx and p
  assume "Parent anchor = Some p"
  then show "((asertHeight, p), (asertHeight, anchor)) \<in> measure (\<lambda>(h, a). size a)"
    by (cases anchor) simp
qed

declare findAnchor.simps [simp del]

text \<open>The split of the fixed-point exponent into \<open>(shifts, frac)\<close>.\<close>

definition asertSplit :: "int64 \<Rightarrow> int32 \<times> uint16" where
  "asertSplit exponent =
     (if 0 \<le>s exponent
      then (ucast (signed_drop_bit 16 exponent), ucast (exponent AND 0xFFFF))
      else
        let absExponent = - exponent;
            shifts = - (ucast (signed_drop_bit 16 absExponent) :: int32);
            remainder = (ucast (absExponent AND 0xFFFF) :: uint32)
        in if remainder \<noteq> 0 then (shifts - 1, ucast (65536 - remainder))
           else (shifts, 0))"

text \<open>\<open>2 ^ (frac / 65536) * 65536\<close> by the cubic polynomial, in \<^verbatim>\<open>uint64\<close>.\<close>

definition asertFactor :: "uint16 \<Rightarrow> uint32" where
  "asertFactor frac' =
     (if frac' \<noteq> 0 then
        let f = (ucast frac' :: uint64)
        in 65536 + ucast (drop_bit 48
             (195766423245049 * f + 971821376 * f * f + 5127 * f * f * f + push_bit 47 1))
      else 65536)"

text \<open>Lines 575 to 584: the floor at 1, the cap at \<^verbatim>\<open>PowLimit\<close> and the encoding.\<close>

definition asertFinish :: "Params \<Rightarrow> int \<Rightarrow> error + uint32" where
  "asertFinish params nextTarget =
     (let nextTarget = (if nextTarget = 0 then 1 else nextTarget);
          nextTarget = (if PowLimit params < nextTarget then PowLimit params else nextTarget)
      in Inr (BigToCompact nextTarget))"

text \<open>
  The \<^verbatim>\<open>int64\<close> division by \<^verbatim>\<open>halfLife\<close> panics when the half-life is zero. A negative
  \<^verbatim>\<open>int32\<close> converted with \<^verbatim>\<open>uint(...)\<close> is sign-extended.
\<close>

definition calcNextRequiredDifficultyASERT :: "HeaderCtx \<Rightarrow> ChainCtx \<Rightarrow> error + uint32" where
  "calcNextRequiredDifficultyASERT lastNode c =
     (let params = ChainParams c
      in case findAnchor (ASERTHeight params) lastNode of
           Inl e \<Rightarrow> Inl e
         | Inr anchor \<Rightarrow>
            (case Parent anchor of
               None \<Rightarrow> Inl (AssertError ''ASERT anchor block has no parent'')
             | Some anchorParent \<Rightarrow>
                 let anchorTarget = CompactToBig (ASERTAnchorBits params);
                     anchorParentTime = Timestamp anchorParent;
                     currentParentTime = Timestamp lastNode;
                     timeDelta = currentParentTime - anchorParentTime;
                     nHeight = (scast (Height lastNode) :: int64) + 1;
                     heightDelta = nHeight - scast (ASERTHeight params);
                     T = seconds (TargetTimePerBlock params);
                     halfLife = ASERTHalfLife params
                 in if halfLife = 0 then Inl DivideByZero
                    else
                      let exponent = sdiv64 ((timeDelta - T * heightDelta) * 65536) halfLife;
                          (shifts, frac') = asertSplit exponent;
                          factor = asertFactor frac';
                          nextTarget = drop_bit 16 (anchorTarget * uint factor)
                      in if 0 <s shifts then
                           (if 256 \<le>s shifts then Inr (BigToCompact (PowLimit params))
                            else asertFinish params (push_bit (unat shifts) nextTarget))
                         else if shifts <s 0 then
                           (let absShifts = - shifts
                            in if 256 \<le>s absShifts then Inr (BigToCompact 1)
                               else asertFinish params
                                      (drop_bit (unat (scast absShifts :: uint64)) nextTarget))
                         else asertFinish params nextTarget))"

section \<open>The dispatcher\<close>

text \<open>
  \<open>lastNode\<close> is \<open>None\<close> for a nil \<^verbatim>\<open>HeaderCtx\<close>; \<open>newBlockTime\<close> is
  \<^verbatim>\<open>newBlockTime.Unix()\<close>.
\<close>

definition calcNextRequiredDifficulty ::
    "HeaderCtx option \<Rightarrow> int64 \<Rightarrow> ChainCtx \<Rightarrow> error + uint32" where
  "calcNextRequiredDifficulty lastNode newBlockTime c =
     (if PoWNoRetargeting (ChainParams c) then Inr (PowLimitBits (ChainParams c))
      else case lastNode of
        None \<Rightarrow> Inr (PowLimitBits (ChainParams c))
      | Some node \<Rightarrow>
          let nHeight = Height node + 1
          in if 0 <s ASERTHeight (ChainParams c) \<and> ASERTHeight (ChainParams c) <s nHeight
             then calcNextRequiredDifficultyASERT node c
             else if 0 <s LWMAFixHeight (ChainParams c)
                     \<and> LWMAFixHeight (ChainParams c) \<le>s nHeight
             then calcNextRequiredDifficultyLWMAv2 node c
             else if 0 <s LWMAHeight (ChainParams c) \<and> LWMAHeight (ChainParams c) \<le>s nHeight
             then calcNextRequiredDifficultyLWMA node c
             else legacyRetarget node newBlockTime c)"

section \<open>The dispatcher's rules as the specification words them\<close>

datatype algorithm = Legacy | LWMAv1 | LWMAv2 | ASERT

text \<open>
  Rules 3 to 6 of the specification's dispatcher, on \<open>next = h + 1\<close>: the first matching
  rule names the algorithm.
\<close>

definition dispatch_rule :: "Params \<Rightarrow> int32 \<Rightarrow> algorithm" where
  "dispatch_rule params next =
     (if 0 <s ASERTHeight params \<and> ASERTHeight params <s next then ASERT
      else if 0 <s LWMAFixHeight params \<and> LWMAFixHeight params \<le>s next then LWMAv2
      else if 0 <s LWMAHeight params \<and> LWMAHeight params \<le>s next then LWMAv1
      else Legacy)"

definition run_algorithm :: "algorithm \<Rightarrow> HeaderCtx \<Rightarrow> int64 \<Rightarrow> ChainCtx \<Rightarrow> error + uint32" where
  "run_algorithm a lastNode newBlockTime c =
     (case a of
        ASERT \<Rightarrow> calcNextRequiredDifficultyASERT lastNode c
      | LWMAv2 \<Rightarrow> calcNextRequiredDifficultyLWMAv2 lastNode c
      | LWMAv1 \<Rightarrow> calcNextRequiredDifficultyLWMA lastNode c
      | Legacy \<Rightarrow> legacyRetarget lastNode newBlockTime c)"

text \<open>
  The window distance of the legacy retarget as the specification words it:
  \<open>BlocksPerRetarget - 1\<close> generations, except \<open>BlocksPerRetarget\<close> on the first
  retarget.
\<close>

definition spec_window_distance :: "HeaderCtx \<Rightarrow> ChainCtx \<Rightarrow> int32" where
  "spec_window_distance lastNode c =
     (if Height lastNode + 1 = BlocksPerRetarget c
      then BlocksPerRetarget c else BlocksPerRetarget c - 1)"

text \<open>
  Canonical form as the specification words it: the mantissa (at most \<open>0x7FFFFF\<close> by its
  23 bits) is not zero and the sign bit is clear.
\<close>

definition spec_canonical :: "uint32 \<Rightarrow> bool" where
  "spec_canonical x = (x AND 0x007fffff \<noteq> 0 \<and> x AND 0x00800000 = 0)"

text \<open>
  The values the encoder produces for positive targets: the sign bit is clear, the
  mantissa is normalised (its second byte has its top bit set or its third byte is not
  zero, that is \<open>0x008000 \<le> mantissa\<close>), and for an exponent below 3 the
  \<open>8 * (3 - exponent)\<close> low bits of the mantissa, which decoding shifts out, are zero.
\<close>

definition canonical :: "uint32 \<Rightarrow> bool" where
  "canonical x =
     (let mantissa = x AND 0x007fffff;
          exponent = unat (drop_bit 24 x)
      in x AND 0x00800000 = 0
         \<and> 0x008000 \<le> mantissa
         \<and> take_bit (8 * (3 - exponent)) mantissa = 0)"

text \<open>
  "Every sampled solvetime equals \<open>T\<close>, with the ancestors present": each of the \<open>k\<close>
  links behind \<open>node\<close> has its parent, and the child's timestamp minus the parent's is
  \<open>T\<close>.
\<close>

fun steady :: "int64 \<Rightarrow> HeaderCtx \<Rightarrow> nat \<Rightarrow> bool" where
  "steady T node 0 = True"
| "steady T node (Suc k) =
     (case Parent node of
        None \<Rightarrow> False
      | Some p \<Rightarrow> Timestamp node - Timestamp p = T \<and> steady T p k)"

section \<open>The main network\<close>

text \<open>The difficulty fields of \<^verbatim>\<open>MainNetParams\<close> (\<^verbatim>\<open>chaincfg/params.go\<close>).\<close>

definition MainNetParams :: Params where
  "MainNetParams =
     \<lparr> PowLimit = 0x0fffff000000000000000000000000000000000000000000000000000000,
       PowLimitBits = 0x1e0ffff0,
       PoWNoRetargeting = False,
       TargetTimespan = 302400000000000,
       TargetTimePerBlock = 150000000000,
       RetargetAdjustmentFactor = 4,
       ReduceMinDifficulty = False,
       MinDiffReductionTime = 0,
       LWMAHeight = 1243845,
       LWMAFixHeight = 1244300,
       LWMAWindow = 45,
       ASERTHeight = 1246000,
       ASERTHalfLife = 3600,
       ASERTAnchorBits = 0x1d18ffe7 \<rparr>"

text \<open>
  The chain context of the main network, with the derived quantities the specification
  gives: 2016 blocks per retarget, a quarter and four times the target timespan.
\<close>

definition mainNetCtx :: ChainCtx where
  "mainNetCtx =
     \<lparr> ChainParams = MainNetParams,
       BlocksPerRetarget = 2016,
       MinRetargetTimespan = 75600,
       MaxRetargetTimespan = 1209600 \<rparr>"

text \<open>The difficulty fields of \<^verbatim>\<open>TestNet4Params\<close> and the chain context for them.\<close>

definition TestNet4Params :: Params where
  "TestNet4Params =
     \<lparr> PowLimit = 0x0fffff000000000000000000000000000000000000000000000000000000,
       PowLimitBits = 0x1e0fffff,
       PoWNoRetargeting = False,
       TargetTimespan = 302400000000000,
       TargetTimePerBlock = 150000000000,
       RetargetAdjustmentFactor = 4,
       ReduceMinDifficulty = True,
       MinDiffReductionTime = 300000000000,
       LWMAHeight = 100,
       LWMAFixHeight = 200,
       LWMAWindow = 45,
       ASERTHeight = 300,
       ASERTHalfLife = 3600,
       ASERTAnchorBits = 0x1d18ffe7 \<rparr>"

definition testNet4Ctx :: ChainCtx where
  "testNet4Ctx =
     \<lparr> ChainParams = TestNet4Params,
       BlocksPerRetarget = 2016,
       MinRetargetTimespan = 75600,
       MaxRetargetTimespan = 1209600 \<rparr>"

section \<open>Inputs used by the concrete evaluations\<close>

text \<open>
  A context with two blocks per retarget (a target timespan of 300 seconds at 150 seconds
  per block) and a chain of two headers, 300 seconds apart.
\<close>

definition shortCtx :: ChainCtx where
  "shortCtx =
     \<lparr> ChainParams = MainNetParams \<lparr> TargetTimespan := 300000000000 \<rparr>,
       BlocksPerRetarget = 2,
       MinRetargetTimespan = 75,
       MaxRetargetTimespan = 1200 \<rparr>"

definition genesisHeader :: HeaderCtx where
  "genesisHeader = HeaderCtx 0 1394002925 0x1e0ffff0 None"

definition secondHeader :: HeaderCtx where
  "secondHeader = HeaderCtx 1 1394003225 0x1e0ffff0 (Some genesisHeader)"

text \<open>A header of the test network before the LWMA activation.\<close>

definition testnetHeader :: HeaderCtx where
  "testnetHeader = HeaderCtx 50 1700000000 0x1d18ffe7 None"

text \<open>
  Tips of the main network in the LWMA v1 range and in the LWMA v2 range, each 150
  seconds after its parent.
\<close>

definition lwmaV1Tip :: HeaderCtx where
  "lwmaV1Tip =
     HeaderCtx 1243900 1700000150 0x1d18ffe7
       (Some (HeaderCtx 1243899 1700000000 0x1d18ffe7 None))"

definition lwmaV2Tip :: HeaderCtx where
  "lwmaV2Tip =
     HeaderCtx 1244400 1700000150 0x1d18ffe7
       (Some (HeaderCtx 1244399 1700000000 0x1d18ffe7 None))"

text \<open>Headers of the main network whose parent is not in the supplied chain.\<close>

definition orphanLWMA :: HeaderCtx where
  "orphanLWMA = HeaderCtx 1243900 1700000000 0x1d18ffe7 None"

definition orphanASERT :: HeaderCtx where
  "orphanASERT = HeaderCtx 1246500 1700000000 0x1d18ffe7 None"

text \<open>
  A chain of \<open>k + 1\<close> headers with the tip at height \<open>h\<close> and time \<open>t\<close>, every header
  \<open>T\<close> seconds after its parent, all with the bits \<open>b\<close>.
\<close>

primrec steadyChain :: "nat \<Rightarrow> int32 \<Rightarrow> int64 \<Rightarrow> int64 \<Rightarrow> uint32 \<Rightarrow> HeaderCtx" where
  "steadyChain 0 h t T b = HeaderCtx h t b None"
| "steadyChain (Suc k) h t T b = HeaderCtx h t b (Some (steadyChain k (h - 1) (t - T) T b))"

definition steadyTip :: HeaderCtx where
  "steadyTip = steadyChain 45 1244400 1700000000 150 0x1d18ffe7"

text \<open>
  The main network with an LWMA window of 2 blocks, and three headers 150 seconds apart,
  the tip with other bits than the window-start header two generations back.
\<close>

definition narrowWindowCtx :: ChainCtx where
  "narrowWindowCtx = mainNetCtx \<lparr> ChainParams := MainNetParams \<lparr> LWMAWindow := 2 \<rparr> \<rparr>"

definition narrowWindowStart :: HeaderCtx where
  "narrowWindowStart = HeaderCtx 1244398 1699999700 0x1d18ffe7 None"

definition narrowWindowTip :: HeaderCtx where
  "narrowWindowTip =
     HeaderCtx 1244400 1700000000 0x1d17ffe7
       (Some (HeaderCtx 1244399 1699999850 0x1d18ffe7 (Some narrowWindowStart)))"

text \<open>The main network with a target time per block of zero, and a chain on that schedule.\<close>

definition zeroSpacingCtx :: ChainCtx where
  "zeroSpacingCtx =
     mainNetCtx \<lparr> ChainParams := MainNetParams \<lparr> TargetTimePerBlock := 0 \<rparr> \<rparr>"

definition zeroSpacingTip :: HeaderCtx where
  "zeroSpacingTip = steadyChain 45 1244400 1700000000 0 0x1d18ffe7"

text \<open>
  The ASERT anchor of the main network and its parent, with the anchor one half-life
  behind schedule: for the half-life of 3600 seconds, and for a half-life of \<open>2^47\<close>
  seconds.
\<close>

definition asertLongCtx :: ChainCtx where
  "asertLongCtx =
     mainNetCtx \<lparr> ChainParams := MainNetParams \<lparr> ASERTHalfLife := 140737488355328 \<rparr> \<rparr>"

definition anchorParentHeader :: HeaderCtx where
  "anchorParentHeader = HeaderCtx 1245999 1700000000 0x1d18ffe7 None"

definition anchorHeaderLong :: HeaderCtx where
  "anchorHeaderLong = HeaderCtx 1246000 140739188355478 0x1d18ffe7 (Some anchorParentHeader)"

definition anchorHeaderHour :: HeaderCtx where
  "anchorHeaderHour = HeaderCtx 1246000 1700003750 0x1d18ffe7 (Some anchorParentHeader)"

section \<open>Evaluation\<close>

lemmas eval_defs = calcNextRequiredDifficulty_def legacyRetarget_def retargetFrom_def
  RelativeAncestorCtx_def smod32_def sdiv64_def seconds_def
  big_Div_def CompactToBig_def BigToCompact_def byte_len.simps Let_def
  MainNetParams_def mainNetCtx_def word_sless_alt word_sle_eq

section \<open>Work\<close>

lemma big_Div_pos: "0 < y \<Longrightarrow> big_Div x y = x div y"
  by (simp add: big_Div_def)

text \<open>
  C9: for every 32-bit \<open>bits\<close>, \<open>CalcWork bits\<close> is 0 when the decoded target is not
  positive, and otherwise the floor of \<open>2^256 / (decoded + 1)\<close>.
\<close>

theorem CalcWork_floor:
  "CalcWork bits =
     (if CompactToBig bits \<le> 0 then 0
      else \<lfloor>(2::real) ^ 256 / of_int (CompactToBig bits + 1)\<rfloor>)"
proof (cases "CompactToBig bits \<le> 0")
  case True
  then show ?thesis by (simp add: CalcWork_def)
next
  case False
  then have pos: "0 < CompactToBig bits + 1" by simp
  have "\<lfloor>(2::real) ^ 256 / of_int (CompactToBig bits + 1)\<rfloor>
          = \<lfloor>real_of_int (2 ^ 256) / of_int (CompactToBig bits + 1)\<rfloor>"
    by simp
  also have "\<dots> = 2 ^ 256 div (CompactToBig bits + 1)"
    by (rule floor_divide_of_int_eq)
  finally show ?thesis using False pos
    by (simp add: CalcWork_def Let_def big_Div_pos)
qed

lemma CalcWork_genesis: "CalcWork 0x1d00ffff = 0x0000000100010001"
  by (simp add: CalcWork_def CompactToBig_def big_Div_def)

section \<open>The dispatcher\<close>

text \<open>
  C2: the dispatcher returns \<open>PowLimitBits\<close> when retargeting is off or the tip is
  absent, and otherwise runs the algorithm that the first matching rule names for
  \<open>next = h + 1\<close> (the \<^verbatim>\<open>int32\<close> sum): ASERT strictly past \<open>ASERTHeight\<close>, else
  LWMA v2 from \<open>LWMAFixHeight\<close>, else LWMA v1 from \<open>LWMAHeight\<close>, else the legacy retarget.
\<close>

theorem dispatcher_first_match:
  "calcNextRequiredDifficulty lastNode newBlockTime c =
     (if PoWNoRetargeting (ChainParams c) then Inr (PowLimitBits (ChainParams c))
      else case lastNode of
             None \<Rightarrow> Inr (PowLimitBits (ChainParams c))
           | Some node \<Rightarrow>
               run_algorithm (dispatch_rule (ChainParams c) (Height node + 1))
                 node newBlockTime c)"
  by (simp add: calcNextRequiredDifficulty_def run_algorithm_def dispatch_rule_def Let_def
           split: option.split)

text \<open>The anchor block itself, at \<open>next = ASERTHeight\<close>, is not given to ASERT.\<close>

lemma anchor_block_not_asert: "dispatch_rule params (ASERTHeight params) \<noteq> ASERT"
  by (simp add: dispatch_rule_def)

text \<open>
  C10: two calls that differ only in the new block's timestamp return the same result
  whenever the dispatcher selects LWMA v1, LWMA v2 or ASERT; the timestamp reaches the
  result only on the legacy path, through the \<open>ReduceMinDifficulty\<close> rule.
\<close>

theorem newBlockTime_only_legacy:
  assumes "dispatch_rule (ChainParams c) (Height node + 1) \<noteq> Legacy
           \<or> \<not> ReduceMinDifficulty (ChainParams c)"
  shows "calcNextRequiredDifficulty (Some node) t1 c
           = calcNextRequiredDifficulty (Some node) t2 c"
  using assms
  by (auto simp add: calcNextRequiredDifficulty_def dispatch_rule_def Let_def
        legacyRetarget_def split: if_splits)

text \<open>
  On the main network the three later algorithms each return the same bits for two
  new-block timestamps: ASERT at the anchor one half-life behind schedule, LWMA v2 and
  LWMA v1 at tips 150 seconds after their parents.
\<close>

theorem newBlockTime_only_legacy_witness:
  "dispatch_rule (ChainParams mainNetCtx) (Height anchorHeaderHour + 1) = ASERT
   \<and> calcNextRequiredDifficulty (Some anchorHeaderHour) 1700003900 mainNetCtx
       = Inr 0x1d31ffce
   \<and> calcNextRequiredDifficulty (Some anchorHeaderHour) 1800000000 mainNetCtx
       = Inr 0x1d31ffce
   \<and> dispatch_rule (ChainParams mainNetCtx) (Height lwmaV2Tip + 1) = LWMAv2
   \<and> calcNextRequiredDifficulty (Some lwmaV2Tip) 1700000300 mainNetCtx = Inr 0x1d18ffe7
   \<and> calcNextRequiredDifficulty (Some lwmaV2Tip) 1800000000 mainNetCtx = Inr 0x1d18ffe7
   \<and> dispatch_rule (ChainParams mainNetCtx) (Height lwmaV1Tip + 1) = LWMAv1
   \<and> calcNextRequiredDifficulty (Some lwmaV1Tip) 1700000300 mainNetCtx = Inr 0x1d18ffe7
   \<and> calcNextRequiredDifficulty (Some lwmaV1Tip) 1800000000 mainNetCtx = Inr 0x1d18ffe7"
proof -
  have selA: "dispatch_rule (ChainParams mainNetCtx) (Height anchorHeaderHour + 1) = ASERT"
    by (simp add: dispatch_rule_def mainNetCtx_def MainNetParams_def anchorHeaderHour_def
          word_sless_alt word_sle_eq)
  have resA: "calcNextRequiredDifficulty (Some anchorHeaderHour) 1700003900 mainNetCtx
                = Inr 0x1d31ffce"
    by (simp add: eval_defs calcNextRequiredDifficultyASERT_def findAnchor.simps
          asertSplit_def asertFactor_def asertFinish_def anchorParentHeader_def
          anchorHeaderHour_def)
  have "dispatch_rule (ChainParams mainNetCtx) (Height anchorHeaderHour + 1) \<noteq> Legacy
        \<or> \<not> ReduceMinDifficulty (ChainParams mainNetCtx)"
    using selA by simp
  from newBlockTime_only_legacy [OF this, of 1800000000 1700003900] resA
  have resA': "calcNextRequiredDifficulty (Some anchorHeaderHour) 1800000000 mainNetCtx
                 = Inr 0x1d31ffce"
    by simp
  have sel2: "dispatch_rule (ChainParams mainNetCtx) (Height lwmaV2Tip + 1) = LWMAv2"
    by (simp add: dispatch_rule_def mainNetCtx_def MainNetParams_def lwmaV2Tip_def
          word_sless_alt word_sle_eq)
  have res2: "calcNextRequiredDifficulty (Some lwmaV2Tip) 1700000300 mainNetCtx
                = Inr 0x1d18ffe7"
    by (simp add: eval_defs calcNextRequiredDifficultyLWMAv2_def lwmaBlocks_def
          lwmaLoop.simps windowStartLoop.simps lwmaV2Tip_def)
  have "dispatch_rule (ChainParams mainNetCtx) (Height lwmaV2Tip + 1) \<noteq> Legacy
        \<or> \<not> ReduceMinDifficulty (ChainParams mainNetCtx)"
    using sel2 by simp
  from newBlockTime_only_legacy [OF this, of 1800000000 1700000300] res2
  have res2': "calcNextRequiredDifficulty (Some lwmaV2Tip) 1800000000 mainNetCtx
                 = Inr 0x1d18ffe7"
    by simp
  have sel1: "dispatch_rule (ChainParams mainNetCtx) (Height lwmaV1Tip + 1) = LWMAv1"
    by (simp add: dispatch_rule_def mainNetCtx_def MainNetParams_def lwmaV1Tip_def
          word_sless_alt word_sle_eq)
  have res1: "calcNextRequiredDifficulty (Some lwmaV1Tip) 1700000300 mainNetCtx
                = Inr 0x1d18ffe7"
    by (simp add: eval_defs calcNextRequiredDifficultyLWMA_def lwmaBlocks_def
          lwmaLoop.simps lwmaV1Tip_def)
  have "dispatch_rule (ChainParams mainNetCtx) (Height lwmaV1Tip + 1) \<noteq> Legacy
        \<or> \<not> ReduceMinDifficulty (ChainParams mainNetCtx)"
    using sel1 by simp
  from newBlockTime_only_legacy [OF this, of 1800000000 1700000300] res1
  have res1': "calcNextRequiredDifficulty (Some lwmaV1Tip) 1800000000 mainNetCtx
                 = Inr 0x1d18ffe7"
    by simp
  from selA resA resA' sel2 res2 res2' sel1 res1 res1' show ?thesis by simp
qed

text \<open>
  On the legacy path with \<open>ReduceMinDifficulty\<close> the timestamp does decide: on the test
  network, 100 seconds after the tip the tip's bits are required, 301 seconds after it
  the minimum difficulty.
\<close>

lemma newBlockTime_decides_on_legacy:
  "calcNextRequiredDifficulty (Some testnetHeader) 1700000100 testNet4Ctx = Inr 0x1d18ffe7
   \<and> calcNextRequiredDifficulty (Some testnetHeader) 1700000301 testNet4Ctx = Inr 0x1e0fffff"
  by (simp add: calcNextRequiredDifficulty_def legacyRetarget_def
        findPrevTestNetDifficulty_def findPrevTestNetDifficulty_loop.simps
        smod32_def sdiv64_def seconds_def Let_def TestNet4Params_def testNet4Ctx_def
        testnetHeader_def word_sless_alt word_sle_eq)

section \<open>The legacy retarget window\<close>

text \<open>
  C1 (as amended): at a retarget boundary of the legacy algorithm the first node of the
  window lies \<open>BlocksPerRetarget\<close> generations behind the tip, except at the first
  retarget (\<open>h + 1 = BlocksPerRetarget\<close>), where it lies \<open>BlocksPerRetarget - 1\<close>
  generations behind.
\<close>

theorem legacy_window_start:
  assumes "\<not> PoWNoRetargeting (ChainParams c)"
    and "dispatch_rule (ChainParams c) (Height lastNode + 1) = Legacy"
    and "BlocksPerRetarget c \<noteq> 0"
    and "smod32 (Height lastNode + 1) (BlocksPerRetarget c) = 0"
  shows "calcNextRequiredDifficulty (Some lastNode) newBlockTime c =
           retargetFrom
             (RelativeAncestorCtx lastNode
                (if Height lastNode + 1 = BlocksPerRetarget c
                 then BlocksPerRetarget c - 1 else BlocksPerRetarget c))
             lastNode c"
  using assms
  by (auto simp add: calcNextRequiredDifficulty_def dispatch_rule_def Let_def
        legacyRetarget_def split: if_splits)

theorem legacy_window_start_witness:
  "\<not> PoWNoRetargeting (ChainParams shortCtx)
   \<and> dispatch_rule (ChainParams shortCtx) (Height secondHeader + 1) = Legacy
   \<and> BlocksPerRetarget shortCtx \<noteq> 0
   \<and> smod32 (Height secondHeader + 1) (BlocksPerRetarget shortCtx) = 0
   \<and> calcNextRequiredDifficulty (Some secondHeader) 1394003375 shortCtx
       = retargetFrom (Some genesisHeader) secondHeader shortCtx"
proof -
  have h1: "\<not> PoWNoRetargeting (ChainParams shortCtx)"
    by (simp add: shortCtx_def MainNetParams_def)
  have h2: "dispatch_rule (ChainParams shortCtx) (Height secondHeader + 1) = Legacy"
    by (simp add: eval_defs dispatch_rule_def shortCtx_def secondHeader_def)
  have h3: "BlocksPerRetarget shortCtx \<noteq> 0"
    by (simp add: shortCtx_def)
  have h4: "smod32 (Height secondHeader + 1) (BlocksPerRetarget shortCtx) = 0"
    by (simp add: eval_defs shortCtx_def secondHeader_def)
  have anc: "RelativeAncestorCtx secondHeader
               (if Height secondHeader + 1 = BlocksPerRetarget shortCtx
                then BlocksPerRetarget shortCtx - 1 else BlocksPerRetarget shortCtx)
             = Some genesisHeader"
    by (simp add: RelativeAncestorCtx_def shortCtx_def secondHeader_def word_sless_alt)
  from legacy_window_start [OF h1 h2 h3 h4, of 1394003375] h1 h2 h3 h4 anc
  show ?thesis by simp
qed

text \<open>
  C1 as the specification words it fails on the two-header chain: the tip is at the first
  retarget, the code walks back one generation and retargets from the genesis header,
  while the specification's distance of two generations finds no header.
\<close>

theorem legacy_window_start_counterexample:
  "calcNextRequiredDifficulty (Some secondHeader) 1394003375 shortCtx = Inr 0x1e0ffff0
   \<and> retargetFrom
        (RelativeAncestorCtx secondHeader (spec_window_distance secondHeader shortCtx))
        secondHeader shortCtx
       = Inl (AssertError ''unable to obtain previous retarget block'')"
proof
  show "calcNextRequiredDifficulty (Some secondHeader) 1394003375 shortCtx = Inr 0x1e0ffff0"
    by (simp add: eval_defs shortCtx_def secondHeader_def genesisHeader_def)
  show "retargetFrom
          (RelativeAncestorCtx secondHeader (spec_window_distance secondHeader shortCtx))
          secondHeader shortCtx
        = Inl (AssertError ''unable to obtain previous retarget block'')"
    by (simp add: eval_defs spec_window_distance_def shortCtx_def secondHeader_def
          genesisHeader_def numeral_2_eq_2)
qed

section \<open>Missing ancestors\<close>

text \<open>
  The anchor search ends in one of two ways: it finds a header at or below the
  activation height, or it runs out of parents above it and panics. A found anchor
  without a parent is the \<open>AssertError\<close>.
\<close>

lemma findAnchor_result:
  "findAnchor h node = Inl NilDereference
   \<or> (\<exists>anchor. findAnchor h node = Inr anchor \<and> \<not> h <s Height anchor)"
proof (induction h node rule: findAnchor.induct)
  case (1 h node)
  show ?case
  proof (cases "h <s Height node")
    case False
    then show ?thesis by (subst (1 2) findAnchor.simps) simp
  next
    case above: True
    show ?thesis
    proof (cases "Parent node")
      case None
      then show ?thesis using above by (subst findAnchor.simps) simp
    next
      case (Some p)
      have eq: "findAnchor h node = findAnchor h p"
        using above Some by (subst findAnchor.simps) simp
      show ?thesis unfolding eq by (rule 1 [OF above Some])
    qed
  qed
qed

lemma findAnchor_orphan:
  "h <s Height node \<Longrightarrow> Parent node = None \<Longrightarrow> findAnchor h node = Inl NilDereference"
  by (subst findAnchor.simps) simp

lemma asert_walk_exhausted:
  "findAnchor (ASERTHeight (ChainParams c)) lastNode = Inl NilDereference
   \<Longrightarrow> calcNextRequiredDifficultyASERT lastNode c = Inl NilDereference"
  by (simp add: calcNextRequiredDifficultyASERT_def)

lemma asert_anchor_without_parent:
  "findAnchor (ASERTHeight (ChainParams c)) lastNode = Inr anchor \<Longrightarrow> Parent anchor = None
   \<Longrightarrow> calcNextRequiredDifficultyASERT lastNode c
         = Inl (AssertError ''ASERT anchor block has no parent'')"
  by (simp add: calcNextRequiredDifficultyASERT_def)

text \<open>
  C6: on the main network, a tip past the ASERT activation whose parent is absent makes
  the anchor search call \<^verbatim>\<open>Height\<close> on a nil header: the call panics instead of
  returning an \<open>AssertError\<close>.
\<close>

theorem asert_missing_anchor_panics:
  "calcNextRequiredDifficulty (Some orphanASERT) 1700000150 mainNetCtx = Inl NilDereference"
  by (simp add: eval_defs orphanASERT_def calcNextRequiredDifficultyASERT_def
        findAnchor.simps)

text \<open>
  With no parent at the tip and a window of at least 3 blocks, LWMA v1 divides by an
  expected sum of zero, whatever the parameters.
\<close>

lemma lwma_no_parent_divides_by_zero:
  "Parent lastNode = None \<Longrightarrow> \<not> lwmaBlocks lastNode (ChainParams c) <s 3
   \<Longrightarrow> calcNextRequiredDifficultyLWMA lastNode c = Inl DivideByZero"
  by (simp add: calcNextRequiredDifficultyLWMA_def Let_def lwmaLoop.simps [of _ lastNode])

text \<open>
  C7: on the main network, a tip in the LWMA v1 range with a window of at least 3 blocks
  and no parent leaves both sums at 0, and the division by the expected sum panics.
\<close>

theorem lwma_first_parent_missing_panics:
  "calcNextRequiredDifficulty (Some orphanLWMA) 1700000150 mainNetCtx = Inl DivideByZero"
  by (simp add: eval_defs orphanLWMA_def calcNextRequiredDifficultyLWMA_def lwmaBlocks_def
        lwmaLoop.simps)

section \<open>The compact codec\<close>

subsection \<open>Byte length\<close>

lemma byte_len_0: "byte_len 0 = 0"
  by (simp add: byte_len.simps)

lemma byte_len_step: "0 < n \<Longrightarrow> byte_len n = byte_len (n div 256) + 1"
  by (subst byte_len.simps) simp

lemma byte_len_upper: "n < 256 ^ byte_len n"
proof (induction n rule: byte_len.induct)
  case (1 n)
  show ?case
  proof (cases "n = 0")
    case True
    then show ?thesis by (simp add: byte_len_0)
  next
    case False
    then have "n div 256 < 256 ^ byte_len (n div 256)" using 1 by simp
    then have "n < 256 * 256 ^ byte_len (n div 256)" by simp
    then show ?thesis using False by (simp add: byte_len_step)
  qed
qed

lemma byte_len_lower: "0 < n \<Longrightarrow> 256 ^ (byte_len n - 1) \<le> n"
proof (induction n rule: byte_len.induct)
  case (1 n)
  show ?case
  proof (cases "n div 256 = 0")
    case True
    then have "byte_len n = 1" using 1(2) by (simp add: byte_len_step byte_len_0)
    then show ?thesis using 1(2) by simp
  next
    case False
    then have pos: "0 < n div 256" by simp
    have ih: "256 ^ (byte_len (n div 256) - 1) \<le> n div 256"
      using 1(1) 1(2) pos by simp
    have "0 < byte_len (n div 256)" using pos by (simp add: byte_len_step)
    then have "(256::nat) ^ byte_len (n div 256) = 256 * 256 ^ (byte_len (n div 256) - 1)"
      by (cases "byte_len (n div 256)") simp_all
    also have "\<dots> \<le> 256 * (n div 256)" using ih by simp
    also have "\<dots> \<le> n" by simp
    finally show ?thesis using 1(2) by (simp add: byte_len_step)
  qed
qed

lemma byte_len_unique:
  assumes "256 ^ L \<le> n" "n < 256 ^ Suc L"
  shows "byte_len n = Suc L"
proof -
  have "0 < (256::nat) ^ L" by simp
  then have pos: "0 < n" using assms(1) by linarith
  have "(256::nat) ^ L < 256 ^ byte_len n"
    using assms(1) byte_len_upper [of n] by (rule le_less_trans)
  then have a: "L < byte_len n" by simp
  have "(256::nat) ^ (byte_len n - 1) < 256 ^ Suc L"
    using byte_len_lower [OF pos] assms(2) by (rule le_less_trans)
  then have b: "byte_len n - 1 < Suc L"
    using power_less_imp_less_exp [of 256 "byte_len n - 1" "Suc L"] by simp
  from a b show ?thesis by simp
qed

lemma byte_len_mult: "0 < n \<Longrightarrow> byte_len (n * 256 ^ k) = byte_len n + k"
proof (induction k)
  case 0
  show ?case by simp
next
  case (Suc k)
  have "n * 256 ^ Suc k = n * 256 ^ k * 256" by simp
  then have "byte_len (n * 256 ^ Suc k) = byte_len (n * 256 ^ k * 256)" by (simp only:)
  also have "\<dots> = byte_len (n * 256 ^ k) + 1"
    using Suc.prems by (subst byte_len_step) simp_all
  finally show ?case using Suc by simp
qed

subsection \<open>Words and numbers\<close>

lemma unat_of_nat32: "v < 2 ^ 32 \<Longrightarrow> unat (of_nat v :: uint32) = v"
  by (simp add: unat_of_nat)

lemma drop8_of_nat: "v < 2 ^ 32 \<Longrightarrow> drop_bit 8 (of_nat v :: uint32) = of_nat (v div 256)"
proof -
  assume v: "v < 2 ^ 32"
  then have v': "v div 256 < 2 ^ 32" by simp
  have "unat (drop_bit 8 (of_nat v :: uint32)) = unat (of_nat v :: uint32) div 2 ^ 8"
    by (subst unat_drop_bit_eq) (simp only: drop_bit_eq_div)
  also have "\<dots> = v div 256" by (simp only: unat_of_nat32 [OF v]) simp
  also have "\<dots> = unat (of_nat (v div 256) :: uint32)"
    by (simp only: unat_of_nat32 [OF v'])
  finally show ?thesis by (simp only: word_unat_eq_iff)
qed

lemma bit23_of_nat:
  assumes "v < 2 ^ 24"
  shows "((of_nat v :: uint32) AND 0x00800000 \<noteq> 0) = (2 ^ 23 \<le> v)"
proof -
  have c: "(0x00800000 :: uint32) = 2 ^ 23" by simp
  have "v div 2 ^ 23 < 2" using assms by (simp add: less_mult_imp_div_less)
  then have "odd (v div 2 ^ 23) = (v div 2 ^ 23 = 1)" by (cases "v div 2 ^ 23 = 0") auto
  also have "\<dots> = (2 ^ 23 \<le> v)" using assms by (auto simp: div_nat_eqI Suc_le_eq div_greater_zero_iff)
  finally have "bit v 23 = (2 ^ 23 \<le> v)" by (simp add: bit_iff_odd)
  then show ?thesis
    unfolding c and_exp_eq_0_iff_not_bit by (simp add: bit_of_nat_iff)
qed

lemma compose_or:
  assumes "M < 2 ^ 24"
  shows "push_bit 24 (of_nat E :: uint32) OR of_nat M = of_nat (E * 2 ^ 24 + M)"
proof -
  have "push_bit 24 (of_nat E :: uint32) + of_nat M = push_bit 24 (of_nat E) OR of_nat M"
  proof (rule disjunctive_add)
    fix n
    show "\<not> bit (push_bit 24 (of_nat E :: uint32)) n \<or> \<not> bit (of_nat M :: uint32) n"
    proof (cases "n < 24")
      case True
      then show ?thesis by (simp add: bit_push_bit_iff)
    next
      case False
      then have "M < 2 ^ n"
        using assms by (meson leI less_le_trans one_le_numeral power_increasing)
      then have "\<not> bit M n" by (simp add: bit_iff_odd)
      then show ?thesis by (simp add: bit_of_nat_iff)
    qed
  qed
  then show ?thesis by (simp add: push_bit_eq_mult)
qed

lemma pow_2_8: "(2::nat) ^ (8 * j) = 256 ^ j"
  by (simp add: power_mult)

lemma pow256_split: "j \<le> k \<Longrightarrow> (256::nat) ^ k = 256 ^ (k - j) * 256 ^ j"
  by (simp flip: power_add)

lemma premantissa_small:
  assumes "byte_len n \<le> 3"
  shows "n * 256 ^ 3 div 256 ^ byte_len n = n * 256 ^ (3 - byte_len n)"
proof -
  have "(256::nat) ^ 3 = 256 ^ ((3 - byte_len n) + byte_len n)"
    using assms by simp
  also have "\<dots> = 256 ^ (3 - byte_len n) * 256 ^ byte_len n" by (rule power_add)
  finally have "n * 256 ^ 3 = n * 256 ^ (3 - byte_len n) * 256 ^ byte_len n"
    by (simp only: mult.assoc)
  then show ?thesis by (simp only: nonzero_mult_div_cancel_right) simp
qed

lemma premantissa_large:
  assumes "3 \<le> byte_len n"
  shows "n * 256 ^ 3 div 256 ^ byte_len n = n div 256 ^ (byte_len n - 3)"
proof -
  have "(256::nat) ^ byte_len n = 256 ^ (3 + (byte_len n - 3))"
    using assms by simp
  also have "\<dots> = 256 ^ 3 * 256 ^ (byte_len n - 3)" by (rule power_add)
  finally have "n * 256 ^ 3 div 256 ^ byte_len n
                  = 256 ^ 3 * n div (256 ^ 3 * 256 ^ (byte_len n - 3))"
    by (simp only: mult.commute)
  also have "\<dots> = n div 256 ^ (byte_len n - 3)"
    by (subst div_mult_mult1) simp_all
  finally show ?thesis .
qed

lemma premantissa_less: "n * 256 ^ 3 div 256 ^ byte_len n < 2 ^ 24"
proof -
  have "n * 256 ^ 3 < 256 ^ 3 * 256 ^ byte_len n"
    using byte_len_upper [of n] by simp
  then have "n * 256 ^ 3 div 256 ^ byte_len n < 256 ^ 3"
    by (rule less_mult_imp_div_less)
  then show ?thesis by simp
qed

lemma BigToCompact_nat:
  assumes "0 < n"
  shows "BigToCompact (int n) =
     (if 2 ^ 23 \<le> n * 256 ^ 3 div 256 ^ byte_len n
      then of_nat ((byte_len n + 1) * 2 ^ 24 + n * 256 ^ 3 div 256 ^ byte_len n div 256)
      else of_nat (byte_len n * 2 ^ 24 + n * 256 ^ 3 div 256 ^ byte_len n))"
proof -
  let ?L = "byte_len n"
  let ?P = "n * 256 ^ 3 div 256 ^ ?L"
  have P24: "?P < 2 ^ 24" by (rule premantissa_less)
  then have P32: "?P < 2 ^ 32" by simp
  have P256: "?P div 256 < 2 ^ 24" using P24 by simp
  have mant: "(if ?L \<le> 3
               then push_bit (8 * (3 - ?L)) (word_of_int \<bar>int n\<bar> :: uint32)
               else word_of_int \<bar>drop_bit (8 * (?L - 3)) (int n)\<bar>) = of_nat ?P"
  proof (cases "?L \<le> 3")
    case True
    have "push_bit (8 * (3 - ?L)) (word_of_int \<bar>int n\<bar> :: uint32)
            = of_nat (n * 2 ^ (8 * (3 - ?L)))"
      by (simp add: push_bit_eq_mult)
    also have "\<dots> = of_nat ?P"
      by (simp only: pow_2_8 premantissa_small [OF True])
    finally show ?thesis using True by simp
  next
    case False
    then have L: "3 < ?L" by simp
    have "drop_bit (8 * (?L - 3)) (int n) = int (n div 2 ^ (8 * (?L - 3)))"
      by (simp add: drop_bit_eq_div zdiv_int)
    then have "(word_of_int \<bar>drop_bit (8 * (?L - 3)) (int n)\<bar> :: uint32)
                 = of_nat (n div 2 ^ (8 * (?L - 3)))"
      by simp
    also have "\<dots> = of_nat ?P"
      by (simp only: pow_2_8 premantissa_large [OF less_imp_le [OF L]])
    finally show ?thesis using False by simp
  qed
  have Ln: "nat \<bar>int n\<bar> = n" by simp
  have nz: "(int n = 0) = False" "(int n < 0) = False" using assms by simp_all
  show ?thesis
  proof (cases "2 ^ 23 \<le> ?P")
    case True
    have "BigToCompact (int n) = push_bit 24 (of_nat (?L + 1)) OR of_nat (?P div 256)"
      unfolding BigToCompact_def Let_def Ln mant bit23_of_nat [OF P24]
      using True by (simp only: nz if_True if_False drop8_of_nat [OF P32])
    also have "\<dots> = of_nat ((?L + 1) * 2 ^ 24 + ?P div 256)"
      by (rule compose_or [OF P256])
    finally show ?thesis using True by (simp only: if_True)
  next
    case False
    have "BigToCompact (int n) = push_bit 24 (of_nat ?L) OR of_nat ?P"
      unfolding BigToCompact_def Let_def Ln mant bit23_of_nat [OF P24]
      using False by (simp only: nz if_True if_False)
    also have "\<dots> = of_nat (?L * 2 ^ 24 + ?P)"
      by (rule compose_or [OF P24])
    finally show ?thesis using False by (simp only: if_False)
  qed
qed

lemma compact_parts:
  assumes "M < 2 ^ 23" "E < 256"
  shows "(of_nat (E * 2 ^ 24 + M) :: uint32) AND 0x007fffff = of_nat M"
    and "(of_nat (E * 2 ^ 24 + M) :: uint32) AND 0x00800000 = 0"
    and "unat (drop_bit 24 (of_nat (E * 2 ^ 24 + M) :: uint32)) = E"
proof -
  let ?u = "E * 2 ^ 24 + M"
  let ?x = "of_nat ?u :: uint32"
  have "E * 2 ^ 24 \<le> 255 * 2 ^ 24" using assms(2) by simp
  then have u32: "?u < 2 ^ 32" using assms(1) by simp
  have unat_x: "unat ?x = ?u" by (rule unat_of_nat32 [OF u32])
  have "(0x007fffff :: uint32) = mask 23" by (simp add: mask_eq_exp_minus_1)
  then have "?x AND 0x007fffff = take_bit 23 ?x" by (simp only: take_bit_eq_mask)
  also have "\<dots> = of_nat (take_bit 23 ?u)" by (simp only: take_bit_of_nat)
  also have "take_bit 23 ?u = M"
  proof -
    have "E * 2 ^ 24 = (2 * E) * 2 ^ 23" by simp
    then have "?u mod 2 ^ 23 = M mod 2 ^ 23" by (simp only: mod_mult_self3)
    then show ?thesis using assms(1) by (simp add: take_bit_eq_mod)
  qed
  finally show "?x AND 0x007fffff = of_nat M" .
  show "?x AND 0x00800000 = 0"
  proof -
    have c: "(0x00800000 :: uint32) = 2 ^ 23" by simp
    have "?u div 2 ^ 23 = 2 * E + M div 2 ^ 23"
    proof -
      have "E * 2 ^ 24 = (2 * E) * 2 ^ 23" by simp
      then have "?u div 2 ^ 23 = ((2 * E) * 2 ^ 23 + M) div 2 ^ 23" by (simp only:)
      also have "\<dots> = 2 * E + M div 2 ^ 23" by (subst div_mult_self3) simp_all
      finally show ?thesis .
    qed
    then have "even (?u div 2 ^ 23)" using assms(1) by simp
    then have "\<not> bit ?u 23" by (simp only: bit_iff_odd not_not)
    then have "\<not> bit ?x 23" by (simp only: bit_of_nat_iff simp_thms)
    then show ?thesis unfolding c by (simp only: and_exp_eq_0_iff_not_bit simp_thms)
  qed
  show "unat (drop_bit 24 ?x) = E"
  proof -
    have "unat (drop_bit 24 ?x) = ?u div 2 ^ 24"
      by (subst unat_drop_bit_eq) (simp only: unat_x drop_bit_eq_div)
    also have "\<dots> = E" using assms(1) by simp
    finally show ?thesis .
  qed
qed

lemma CompactToBig_nat:
  assumes "M < 2 ^ 23" "E < 256"
  shows "CompactToBig (of_nat (E * 2 ^ 24 + M)) = int (M * 256 ^ E div 256 ^ 3)"
proof -
  have M32: "M < 2 ^ 32" using assms(1) by simp
  have small: "uint (drop_bit k (of_nat M :: uint32)) = int (M div 2 ^ k)" for k
  proof -
    have "unat (drop_bit k (of_nat M :: uint32)) = M div 2 ^ k"
      by (subst unat_drop_bit_eq) (simp only: unat_of_nat32 [OF M32] drop_bit_eq_div)
    then show ?thesis by (simp only: uint_nat)
  qed
  have big: "uint (of_nat M :: uint32) = int M"
    using unat_of_nat32 [OF M32] by (simp only: uint_nat)
  have val: "(if E \<le> 3 then int (M div 2 ^ (8 * (3 - E)))
              else push_bit (8 * (E - 3)) (int M)) = int (M * 256 ^ E div 256 ^ 3)"
  proof (cases "E \<le> 3")
    case True
    have "(256::nat) ^ 3 = 256 ^ E * 256 ^ (3 - E)"
      using pow256_split [OF True] by (simp only: mult.commute)
    then have "M * 256 ^ E div 256 ^ 3 = 256 ^ E * M div (256 ^ E * 256 ^ (3 - E))"
      by (simp only: mult.commute)
    also have "\<dots> = M div 256 ^ (3 - E)" by (subst div_mult_mult1) simp_all
    finally show ?thesis using True by (simp only: pow_2_8 if_True)
  next
    case False
    then have "(256::nat) ^ E = 256 ^ (E - 3) * 256 ^ 3"
      by (intro pow256_split) simp
    then have "M * 256 ^ E div 256 ^ 3 = M * 256 ^ (E - 3) * 256 ^ 3 div 256 ^ 3"
      by (simp only: mult.assoc)
    also have "\<dots> = M * 256 ^ (E - 3)" by (subst nonzero_mult_div_cancel_right) simp_all
    finally show ?thesis using False
      by (simp add: push_bit_eq_mult flip: pow_2_8)
  qed
  show ?thesis
    unfolding CompactToBig_def Let_def compact_parts [OF assms] small big
    using val by simp
qed

lemma truncate_error:
  fixes n D :: nat
  assumes "0 < D" "2 ^ 15 * D \<le> n"
  shows "n div D * D \<le> n \<and> (n - n div D * D) * 2 ^ 15 < n"
proof -
  have "n - n div D * D = n mod D" by (simp add: minus_div_mult_eq_mod)
  moreover have "n mod D < D" using assms(1) by simp
  then have "n mod D * 2 ^ 15 < D * 2 ^ 15" by simp
  ultimately show ?thesis using assms(2) by (simp add: mult.commute)
qed

lemma roundtrip_nat:
  assumes pos: "0 < n" and len: "byte_len n \<le> 254"
  shows "\<exists>r. CompactToBig (BigToCompact (int n)) = int r \<and> r \<le> n \<and> (n - r) * 2 ^ 15 < n"
proof -
  let ?L = "byte_len n"
  let ?P = "n * 256 ^ 3 div 256 ^ ?L"
  have P24: "?P < 2 ^ 24" by (rule premantissa_less)
  have L1: "1 \<le> ?L" using pos by (simp add: byte_len_step)
  have low: "256 ^ (?L - 1) \<le> n" by (rule byte_len_lower [OF pos])
  show ?thesis
  proof (cases "2 ^ 23 \<le> ?P")
    case False
    then have P23: "?P < 2 ^ 23" by simp
    have L256: "?L < 256" using len by simp
    have enc: "BigToCompact (int n) = of_nat (?L * 2 ^ 24 + ?P)"
      using BigToCompact_nat [OF pos] False by (simp only: if_False)
    have dec: "CompactToBig (BigToCompact (int n)) = int (?P * 256 ^ ?L div 256 ^ 3)"
      unfolding enc by (rule CompactToBig_nat [OF P23 L256])
    show ?thesis
    proof (cases "?L \<le> 3")
      case True
      have "?P * 256 ^ ?L = n * 256 ^ 3"
        unfolding premantissa_small [OF True]
        using pow256_split [OF True] by (simp only: mult.assoc)
      then have "?P * 256 ^ ?L div 256 ^ 3 = n" by simp
      then show ?thesis using dec pos by (intro exI [of _ n]) simp
    next
      case F: False
      then have L3: "3 \<le> ?L" by simp
      let ?D = "(256::nat) ^ (?L - 3)"
      have "?P * 256 ^ ?L = n div ?D * ?D * 256 ^ 3"
        unfolding premantissa_large [OF L3]
        using pow256_split [OF L3] by (simp only: mult.assoc)
      then have r: "?P * 256 ^ ?L div 256 ^ 3 = n div ?D * ?D" by simp
      have "(2::nat) ^ 15 * ?D \<le> 256 ^ 2 * ?D" by simp
      also have "\<dots> = 256 ^ (2 + (?L - 3))" by (simp only: power_add)
      also have "2 + (?L - 3) = ?L - 1" using F by simp
      finally have "2 ^ 15 * ?D \<le> n" using low by simp
      from truncate_error [OF _ this] show ?thesis
        using dec r by (intro exI [of _ "n div ?D * ?D"]) simp
    qed
  next
    case True
    let ?M = "?P div 256"
    have M23: "?M < 2 ^ 23" using P24 by simp
    have L256: "?L + 1 < 256" using len by simp
    have enc: "BigToCompact (int n) = of_nat ((?L + 1) * 2 ^ 24 + ?M)"
      using BigToCompact_nat [OF pos] True by (simp only: if_True)
    have dec: "CompactToBig (BigToCompact (int n)) = int (?M * 256 ^ (?L + 1) div 256 ^ 3)"
      unfolding enc by (rule CompactToBig_nat [OF M23 L256])
    show ?thesis
    proof (cases "?L \<le> 2")
      case T: True
      then have L3: "?L \<le> 3" by simp
      have "3 - ?L = Suc (2 - ?L)" using T by simp
      then have "?P = n * 256 ^ (2 - ?L) * 256"
        unfolding premantissa_small [OF L3] by simp
      then have M: "?M = n * 256 ^ (2 - ?L)" by simp
      have "(256::nat) ^ (2 - ?L) * 256 ^ (?L + 1) = 256 ^ ((2 - ?L) + (?L + 1))"
        by (simp only: power_add)
      also have "(2 - ?L) + (?L + 1) = 3" using T by simp
      finally have "?M * 256 ^ (?L + 1) = n * 256 ^ 3"
        unfolding M by (simp only: mult.assoc)
      then have "?M * 256 ^ (?L + 1) div 256 ^ 3 = n" by simp
      then show ?thesis using dec pos by (intro exI [of _ n]) simp
    next
      case F: False
      then have L3: "3 \<le> ?L" by simp
      let ?D = "(256::nat) ^ (?L - 2)"
      have D: "?D = 256 ^ (?L - 3) * 256"
      proof -
        have "?L - 2 = Suc (?L - 3)" using F by simp
        then show ?thesis by simp
      qed
      have P: "?P = n div 256 ^ (?L - 3)" by (rule premantissa_large [OF L3])
      have M: "?M = n div ?D" unfolding P D by (simp only: div_mult2_eq)
      have "(256::nat) ^ (?L + 1) = 256 ^ ((?L - 2) + 3)" using F by simp
      also have "\<dots> = ?D * 256 ^ 3" by (rule power_add)
      finally have "?M * 256 ^ (?L + 1) = n div ?D * ?D * 256 ^ 3"
        unfolding M by (simp only: mult.assoc)
      then have r: "?M * 256 ^ (?L + 1) div 256 ^ 3 = n div ?D * ?D" by simp
      have "2 ^ 23 * 256 ^ (?L - 3) \<le> ?P * 256 ^ (?L - 3)" using True by simp
      also have "\<dots> \<le> n" unfolding P by simp
      finally have "2 ^ 15 * ?D \<le> n" unfolding D by simp
      from truncate_error [OF _ this] show ?thesis
        using dec r by (intro exI [of _ "n div ?D * ?D"]) simp
    qed
  qed
qed

lemma byte_len_256bit: "n < 2 ^ 256 \<Longrightarrow> byte_len n \<le> 32"
proof (cases "n = 0")
  case True
  then show ?thesis by (simp add: byte_len_0)
next
  case False
  assume "n < 2 ^ 256"
  then have "n < 256 ^ 32" by simp
  with byte_len_lower [of n] False have "(256::nat) ^ (byte_len n - 1) < 256 ^ 32" by simp
  then have "byte_len n - 1 < 32"
    using power_less_imp_less_exp [of 256 "byte_len n - 1" 32] by simp
  then show ?thesis by simp
qed

text \<open>
  C5 (as amended): for every positive \<open>n\<close> below \<open>2^256\<close>, decoding the encoding of \<open>n\<close>
  gives at most \<open>n\<close>, and the relative error \<open>(n - decoded) / n\<close> is below \<open>2^-15\<close>.
\<close>

theorem compact_roundtrip_error:
  assumes "0 < n" "n < 2 ^ 256"
  shows "CompactToBig (BigToCompact n) \<le> n
         \<and> (real_of_int n - real_of_int (CompactToBig (BigToCompact n))) / real_of_int n
             < 1 / 2 ^ 15"
proof -
  define k where "k = nat n"
  have n: "n = int k" and kpos: "0 < k" using assms(1) by (simp_all add: k_def)
  have "k < 2 ^ 256" using assms(2) by (simp add: k_def nat_less_iff)
  then have "byte_len k \<le> 254" using byte_len_256bit [of k] by simp
  from roundtrip_nat [OF kpos this] obtain r
    where r: "CompactToBig (BigToCompact (int k)) = int r" "r \<le> k" "(k - r) * 2 ^ 15 < k"
    by blast
  have "real (k - r) * 2 ^ 15 < real k"
    using r(3) by (metis of_nat_less_iff of_nat_mult of_nat_numeral of_nat_power)
  then have "(real k - real r) * 2 ^ 15 < real k" using r(2) by (simp add: of_nat_diff)
  then have "(real k - real r) / real k < 1 / 2 ^ 15"
    using kpos by (simp add: field_simps)
  then show ?thesis using r(1,2) by (simp add: n)
qed

theorem compact_roundtrip_error_witness:
  "CompactToBig (BigToCompact 0x8000FF) \<le> 0x8000FF
   \<and> (real_of_int 0x8000FF - real_of_int (CompactToBig (BigToCompact 0x8000FF)))
        / real_of_int 0x8000FF < 1 / 2 ^ 15"
proof -
  have "(0::int) < 0x8000FF" "(0x8000FF::int) < 2 ^ 256" by simp_all
  from compact_roundtrip_error [OF this] show ?thesis .
qed

text \<open>
  C5 as stated fails at \<open>n = 0x8000FF\<close>: the mantissa \<open>0x8000FF\<close> has its bit 23 set, is
  shifted to \<open>0x8000\<close> and decodes to \<open>0x800000\<close>; the relative error \<open>255 / 8388863\<close>
  is above \<open>2^-23\<close>.
\<close>

theorem compact_roundtrip_error_counterexample:
  "(0::int) < 0x8000FF \<and> (0x8000FF::int) \<le> 2 ^ 256 - 1
   \<and> BigToCompact 0x8000FF = 0x04008000
   \<and> CompactToBig (BigToCompact 0x8000FF) = 0x800000
   \<and> \<not> (real_of_int 0x8000FF - real_of_int (CompactToBig (BigToCompact 0x8000FF)))
          / real_of_int 0x8000FF \<le> 1 / 2 ^ 23"
proof -
  have enc: "BigToCompact 0x8000FF = 0x04008000"
    by (simp add: BigToCompact_def byte_len.simps)
  have dec: "CompactToBig 0x04008000 = 0x800000"
    by (simp add: CompactToBig_def)
  show ?thesis by (simp add: enc dec)
qed

lemma canonical_compose:
  assumes M23: "M < 2 ^ 23" and E: "E < 256" and M15: "2 ^ 15 \<le> M"
    and dvd: "256 ^ (3 - E) dvd M"
  shows "canonical (of_nat (E * 2 ^ 24 + M))"
proof -
  have M32: "M < 2 ^ 32" using M23 by simp
  have norm: "(0x008000 :: uint32) \<le> of_nat M"
    using M15 by (simp add: word_le_nat_alt unat_of_nat32 [OF M32])
  have "take_bit (8 * (3 - E)) M = 0"
    using dvd by (simp only: take_bit_eq_mod pow_2_8 mod_eq_0_iff_dvd)
  then have "(of_nat (take_bit (8 * (3 - E)) M) :: uint32) = 0" by simp
  then have low: "take_bit (8 * (3 - E)) (of_nat M :: uint32) = 0"
    by (simp only: take_bit_of_nat)
  show ?thesis
    unfolding canonical_def Let_def compact_parts [OF M23 E]
    using norm low by simp
qed

lemma premantissa_ge:
  assumes "0 < n"
  shows "2 ^ 16 \<le> n * 256 ^ 3 div 256 ^ byte_len n"
proof -
  have L1: "1 \<le> byte_len n" using assms by (simp add: byte_len_step)
  have "(256::nat) ^ 2 * 256 ^ byte_len n = 256 ^ (byte_len n - 1) * 256 ^ 3"
  proof -
    have "(256::nat) ^ byte_len n = 256 ^ (byte_len n - 1) * 256 ^ 1"
      by (rule pow256_split [OF L1])
    then show ?thesis by simp
  qed
  also have "\<dots> \<le> n * 256 ^ 3" using byte_len_lower [OF assms] by simp
  finally have "256 ^ 2 \<le> n * 256 ^ 3 div 256 ^ byte_len n"
    by (simp add: less_eq_div_iff_mult_less_eq)
  then show ?thesis by simp
qed

text \<open>
  Every code the encoder gives a positive target below \<open>2^256\<close> is canonical in the
  sense above.
\<close>

lemma encoder_image_canonical:
  assumes pos: "0 < n" and bound: "n < 2 ^ 256"
  shows "canonical (BigToCompact n)"
proof -
  define k where "k = nat n"
  have n: "n = int k" and kpos: "0 < k" using pos by (simp_all add: k_def)
  have "k < 2 ^ 256" using bound by (simp add: k_def nat_less_iff)
  then have len: "byte_len k \<le> 32" by (rule byte_len_256bit)
  let ?L = "byte_len k"
  let ?P = "k * 256 ^ 3 div 256 ^ ?L"
  have P24: "?P < 2 ^ 24" by (rule premantissa_less)
  have P16: "2 ^ 16 \<le> ?P" by (rule premantissa_ge [OF kpos])
  have "canonical (BigToCompact (int k))"
  proof (cases "2 ^ 23 \<le> ?P")
    case False
    then have P23: "?P < 2 ^ 23" by simp
    have enc: "BigToCompact (int k) = of_nat (?L * 2 ^ 24 + ?P)"
      using BigToCompact_nat [OF kpos] False by (simp only: if_False)
    have dvd: "256 ^ (3 - ?L) dvd ?P"
    proof (cases "?L \<le> 3")
      case True
      show ?thesis unfolding premantissa_small [OF True] by simp
    next
      case False
      then show ?thesis by simp
    qed
    show ?thesis unfolding enc
      using len P16 by (intro canonical_compose [OF P23 _ _ dvd]) simp_all
  next
    case True
    let ?M = "?P div 256"
    have M23: "?M < 2 ^ 23" using P24 by simp
    have M15: "2 ^ 15 \<le> ?M" using True by simp
    have enc: "BigToCompact (int k) = of_nat ((?L + 1) * 2 ^ 24 + ?M)"
      using BigToCompact_nat [OF kpos] True by (simp only: if_True)
    have dvd: "256 ^ (3 - (?L + 1)) dvd ?M"
    proof (cases "?L \<le> 2")
      case T: True
      then have L3: "?L \<le> 3" by simp
      have "3 - ?L = Suc (2 - ?L)" using T by simp
      then have "?P = k * 256 ^ (2 - ?L) * 256"
        unfolding premantissa_small [OF L3] by simp
      then have "?M = k * 256 ^ (2 - ?L)" by simp
      moreover have "3 - (?L + 1) = 2 - ?L" by simp
      ultimately show ?thesis by simp
    next
      case False
      then show ?thesis by simp
    qed
    show ?thesis unfolding enc
      using len M15 by (intro canonical_compose [OF M23 _ _ dvd]) simp_all
  qed
  then show ?thesis by (simp only: n)
qed

lemma split_compact:
  fixes x :: uint32
  assumes "x AND 0x00800000 = 0"
  shows "x = of_nat (unat (drop_bit 24 x) * 2 ^ 24 + unat (x AND 0x007fffff))"
proof -
  let ?u = "unat x"
  have c: "(0x00800000 :: uint32) = 2 ^ 23" by simp
  have "\<not> bit x 23" using assms unfolding c by (simp only: and_exp_eq_0_iff_not_bit simp_thms)
  then have nb: "\<not> bit ?u 23" by (simp add: bit_unsigned_iff)
  have "take_bit (Suc 23) ?u = 2 ^ 23 * of_bool (bit ?u 23) + take_bit 23 ?u"
    by (rule take_bit_Suc_from_most)
  then have low: "?u mod 2 ^ 24 = ?u mod 2 ^ 23" using nb by (simp add: take_bit_eq_mod)
  have e: "unat (drop_bit 24 x) = ?u div 2 ^ 24"
    by (subst unat_drop_bit_eq) (simp only: drop_bit_eq_div)
  have "(0x007fffff :: uint32) = mask 23" by (simp add: mask_eq_exp_minus_1)
  then have tb: "x AND 0x007fffff = take_bit 23 x" by (simp only: take_bit_eq_mask)
  have "unat (take_bit 23 x) = take_bit 23 ?u" by (rule unsigned_take_bit_eq)
  then have m: "unat (x AND 0x007fffff) = ?u mod 2 ^ 23"
    by (simp only: tb take_bit_eq_mod)
  have "?u = ?u div 2 ^ 24 * 2 ^ 24 + ?u mod 2 ^ 24" by simp
  then have "?u = unat (drop_bit 24 x) * 2 ^ 24 + unat (x AND 0x007fffff)"
    by (simp only: e m low)
  then have "of_nat ?u = (of_nat (unat (drop_bit 24 x) * 2 ^ 24 + unat (x AND 0x007fffff)) :: uint32)"
    by (simp only:)
  then show ?thesis by simp
qed

text \<open>
  C4 (as amended): for every 32-bit compact value \<open>x\<close> with the sign bit clear, a
  normalised mantissa (\<open>0x008000 \<le> mantissa \<le> 0x7FFFFF\<close>) and, for an exponent below 3,
  the \<open>8 * (3 - exponent)\<close> low bits of the mantissa zero, encoding the decoded target
  gives \<open>x\<close> back.
\<close>

theorem canonical_roundtrip:
  assumes "canonical x"
  shows "BigToCompact (CompactToBig x) = x"
proof -
  define m where "m = unat (x AND 0x007fffff)"
  define e where "e = unat (drop_bit 24 x)"
  have sign: "x AND 0x00800000 = 0"
    and norm: "0x008000 \<le> x AND 0x007fffff"
    and lowz: "take_bit (8 * (3 - e)) (x AND 0x007fffff) = 0"
    using assms by (simp_all add: canonical_def Let_def e_def)
  have x: "x = of_nat (e * 2 ^ 24 + m)"
    unfolding e_def m_def by (rule split_compact [OF sign])
  have m15: "2 ^ 15 \<le> m"
    using norm unfolding m_def by (simp add: word_le_nat_alt)
  have m23: "m < 2 ^ 23"
  proof -
    have "x AND 0x007fffff \<le> 0x007fffff" by (rule word_and_le1)
    then show ?thesis unfolding m_def by (simp add: word_le_nat_alt)
  qed
  have e256: "e < 256"
  proof -
    have "unat x < 2 ^ 32" using unsigned_less [of x] by simp
    then have "unat x div 2 ^ 24 < 256" by simp
    moreover have "e = unat x div 2 ^ 24"
      unfolding e_def by (subst unat_drop_bit_eq) (simp only: drop_bit_eq_div)
    ultimately show ?thesis by simp
  qed
  have dvd: "256 ^ (3 - e) dvd m"
  proof -
    have "unat (take_bit (8 * (3 - e)) (x AND 0x007fffff)) = take_bit (8 * (3 - e)) m"
      unfolding m_def by (rule unsigned_take_bit_eq)
    moreover have "unat (take_bit (8 * (3 - e)) (x AND 0x007fffff)) = 0"
      by (simp only: lowz unsigned_0)
    ultimately have "take_bit (8 * (3 - e)) m = 0" by (simp only:)
    then have "m mod 2 ^ (8 * (3 - e)) = 0" by (simp only: take_bit_eq_mod)
    then show ?thesis by (simp only: pow_2_8 mod_eq_0_iff_dvd)
  qed
  define v where "v = m * 256 ^ e div 256 ^ 3"
  have dec: "CompactToBig x = int v"
    unfolding v_def by (subst x) (rule CompactToBig_nat [OF m23 e256])
  have v3: "v * 256 ^ 3 = m * 256 ^ e"
  proof -
    have "256 ^ 3 dvd m * 256 ^ e"
    proof (cases "e \<le> 3")
      case True
      have "(256::nat) ^ 3 = 256 ^ (3 - e) * 256 ^ e" by (rule pow256_split [OF True])
      then show ?thesis using dvd by (simp only: mult_dvd_mono dvd_refl)
    next
      case False
      then have "(256::nat) ^ 3 dvd 256 ^ e" by (intro le_imp_power_dvd) simp
      then show ?thesis by (rule dvd_mult)
    qed
    then show ?thesis unfolding v_def by (simp only: dvd_div_mult_self)
  qed
  have mpos: "0 < m" using m15 by (simp add: Suc_le_eq)
  have vpos: "0 < v"
  proof (rule ccontr)
    assume "\<not> 0 < v"
    then have "m * 256 ^ e = 0" using v3 by simp
    then show False using mpos by simp
  qed
  have len: "byte_len v + 3 = byte_len m + e"
  proof -
    have "byte_len (v * 256 ^ 3) = byte_len v + 3" by (rule byte_len_mult [OF vpos])
    moreover have "byte_len (m * 256 ^ e) = byte_len m + e" by (rule byte_len_mult [OF mpos])
    ultimately show ?thesis by (simp only: v3)
  qed
  have enc: "BigToCompact (int v) =
     (if 2 ^ 23 \<le> m * 256 ^ e div 256 ^ byte_len v
      then of_nat ((byte_len v + 1) * 2 ^ 24 + m * 256 ^ e div 256 ^ byte_len v div 256)
      else of_nat (byte_len v * 2 ^ 24 + m * 256 ^ e div 256 ^ byte_len v))"
    using BigToCompact_nat [OF vpos] by (simp only: v3)
  have "BigToCompact (int v) = of_nat (e * 2 ^ 24 + m)"
  proof (cases "m < 2 ^ 16")
    case True
    have "byte_len m = Suc 1"
      using m15 True by (intro byte_len_unique) simp_all
    then have L: "e = Suc (byte_len v)" using len by simp
    have P: "m * 256 ^ e div 256 ^ byte_len v = m * 256"
      unfolding L by simp
    have "2 ^ 23 \<le> m * 256" using m15 by simp
    then show ?thesis unfolding enc P using L by simp
  next
    case False
    then have "byte_len m = Suc 2"
      using m23 by (intro byte_len_unique) simp_all
    then have L: "byte_len v = e" using len by simp
    have P: "m * 256 ^ e div 256 ^ byte_len v = m"
      unfolding L by simp
    show ?thesis unfolding enc P using m23 L by simp
  qed
  then show ?thesis unfolding dec using x by simp
qed

theorem canonical_roundtrip_witness:
  "canonical 0x1d18ffe7 \<and> BigToCompact (CompactToBig 0x1d18ffe7) = 0x1d18ffe7"
proof -
  have c: "canonical 0x1d18ffe7" by (simp add: canonical_def)
  from canonical_roundtrip [OF c] c show ?thesis by simp
qed

text \<open>
  C4 as stated fails at \<open>x = 0x1d0000ff\<close>: the mantissa \<open>0x0000ff\<close> is not zero and the
  sign bit is clear, but the decoded target \<open>0xff * 256^26\<close> has 27 bytes and encodes as
  \<open>0x1c00ff00\<close>.
\<close>

theorem canonical_roundtrip_counterexample:
  "spec_canonical 0x1d0000ff
   \<and> BigToCompact (CompactToBig 0x1d0000ff) = 0x1c00ff00
   \<and> BigToCompact (CompactToBig 0x1d0000ff) \<noteq> 0x1d0000ff"
  by (simp add: spec_canonical_def BigToCompact_def CompactToBig_def byte_len.simps)

section \<open>ASERT one half-life behind schedule\<close>

lemma sint_mult_65536:
  fixes h :: int64
  assumes "- (2 ^ 47) \<le> sint h" "sint h < 2 ^ 47"
  shows "sint (h * 65536) = sint h * 65536"
proof -
  have "sint (h * 65536) = signed_take_bit 63 (sint h * sint (65536 :: int64))"
    by (simp add: sint_word_ariths)
  also have "sint (65536 :: int64) = 65536" by simp
  also have "signed_take_bit 63 (sint h * 65536) = sint h * 65536"
    using assms by (intro signed_take_bit_int_eq_self) auto
  finally show ?thesis .
qed

lemma sdiv64_halfLife:
  fixes h :: int64
  assumes "h \<noteq> 0" "- (2 ^ 47) \<le> sint h" "sint h < 2 ^ 47"
  shows "sdiv64 (h * 65536) h = 65536"
proof -
  have nz: "sint h \<noteq> 0" using assms(1) by (simp add: signed_eq_0_iff)
  have "(sint h * 65536) sdiv sint h = 65536"
    using nz by (simp add: signed_divide_int_def sgn_mult abs_mult flip: mult.assoc)
  then show ?thesis
    by (simp add: sdiv64_def sint_mult_65536 [OF assms(2,3)])
qed

lemma asertSplit_one: "asertSplit 65536 = (1, 0)"
  by (simp add: asertSplit_def word_sle_eq)

lemma asertFactor_zero: "asertFactor 0 = 65536"
  by (simp add: asertFactor_def)

lemmas asert_eval = calcNextRequiredDifficultyASERT_def findAnchor.simps asertSplit_def
  asertFactor_def asertFinish_def sdiv64_def seconds_def CompactToBig_def BigToCompact_def
  byte_len.simps Let_def MainNetParams_def mainNetCtx_def word_sless_alt word_sle_eq
  anchorParentHeader_def anchorHeaderLong_def anchorHeaderHour_def asertLongCtx_def

text \<open>
  C3 (as amended): for an ASERT call with the anchor and its parent present, a positive
  anchor target and a half-life that is not zero and lies in \<open>[-2^47, 2^47)\<close>, if the
  time delta minus \<open>T\<close> times the height delta (as the code computes them) equals the
  half-life, the result is the compact encoding of twice the anchor target, capped at
  \<open>PowLimit\<close>.
\<close>

theorem asert_one_halflife_doubles:
  assumes anchor: "findAnchor (ASERTHeight (ChainParams c)) lastNode = Inr anchor"
    and parent: "Parent anchor = Some anchorParent"
    and pos: "0 < CompactToBig (ASERTAnchorBits (ChainParams c))"
    and nz: "ASERTHalfLife (ChainParams c) \<noteq> 0"
    and lo: "- (2 ^ 47) \<le> sint (ASERTHalfLife (ChainParams c))"
    and hi: "sint (ASERTHalfLife (ChainParams c)) < 2 ^ 47"
    and sched: "Timestamp lastNode - Timestamp anchorParent
                  - seconds (TargetTimePerBlock (ChainParams c))
                    * (scast (Height lastNode) + 1 - scast (ASERTHeight (ChainParams c)))
                = ASERTHalfLife (ChainParams c)"
  shows "calcNextRequiredDifficultyASERT lastNode c =
           Inr (BigToCompact (min (2 * CompactToBig (ASERTAnchorBits (ChainParams c)))
                                  (PowLimit (ChainParams c))))"
proof -
  let ?a = "CompactToBig (ASERTAnchorBits (ChainParams c))"
  have ex: "sdiv64 ((Timestamp lastNode - Timestamp anchorParent
                  - seconds (TargetTimePerBlock (ChainParams c))
                    * (scast (Height lastNode) + 1 - scast (ASERTHeight (ChainParams c))))
                 * 65536) (ASERTHalfLife (ChainParams c)) = 65536"
    unfolding sched by (rule sdiv64_halfLife [OF nz lo hi])
  have fin: "asertFinish (ChainParams c) (2 * ?a)
               = Inr (BigToCompact (min (2 * ?a) (PowLimit (ChainParams c))))"
    using pos by (simp add: asertFinish_def Let_def min_def)
  have tgt: "drop_bit 16 (?a * 65536) * 2 = 2 * ?a"
    by (simp add: drop_bit_eq_div)
  show ?thesis
    unfolding calcNextRequiredDifficultyASERT_def Let_def anchor parent sum.case option.case
      ex asertSplit_one prod.case asertFactor_zero
    using nz by (simp add: word_sless_alt word_sle_eq) (simp only: tgt fin)
qed

theorem asert_one_halflife_doubles_witness:
  "calcNextRequiredDifficultyASERT anchorHeaderHour mainNetCtx = Inr 0x1d31ffce"
proof -
  have anchor: "findAnchor (ASERTHeight (ChainParams mainNetCtx)) anchorHeaderHour
                  = Inr anchorHeaderHour"
    by (simp add: asert_eval)
  have parent: "Parent anchorHeaderHour = Some anchorParentHeader"
    by (simp add: anchorHeaderHour_def)
  have pos: "0 < CompactToBig (ASERTAnchorBits (ChainParams mainNetCtx))"
    by (simp add: asert_eval)
  have nz: "ASERTHalfLife (ChainParams mainNetCtx) \<noteq> 0"
    by (simp add: asert_eval)
  have lo: "- (2 ^ 47) \<le> sint (ASERTHalfLife (ChainParams mainNetCtx))"
    by (simp add: asert_eval)
  have hi: "sint (ASERTHalfLife (ChainParams mainNetCtx)) < 2 ^ 47"
    by (simp add: asert_eval)
  have sched: "Timestamp anchorHeaderHour - Timestamp anchorParentHeader
                 - seconds (TargetTimePerBlock (ChainParams mainNetCtx))
                   * (scast (Height anchorHeaderHour) + 1
                      - scast (ASERTHeight (ChainParams mainNetCtx)))
               = ASERTHalfLife (ChainParams mainNetCtx)"
    by (simp add: asert_eval)
  have enc: "BigToCompact (min (2 * CompactToBig (ASERTAnchorBits (ChainParams mainNetCtx)))
                               (PowLimit (ChainParams mainNetCtx))) = 0x1d31ffce"
    by (simp add: asert_eval)
  from asert_one_halflife_doubles [OF anchor parent pos nz lo hi sched] enc
  show ?thesis by simp
qed

text \<open>
  C3 as stated fails for a half-life of \<open>2^47\<close> seconds: the anchor and its parent are
  present, the anchor target is positive and the chain is exactly one half-life behind
  schedule, but \<open>halfLife * 65536\<close> wraps to \<open>-2^63\<close>, the exponent is \<open>-65536\<close> and
  the code halves the anchor target (\<open>0x1d0c7ff3\<close>) where the claim has it doubled
  (\<open>0x1d31ffce\<close>).
\<close>

theorem asert_one_halflife_doubles_counterexample:
  "findAnchor (ASERTHeight (ChainParams asertLongCtx)) anchorHeaderLong = Inr anchorHeaderLong
   \<and> Parent anchorHeaderLong = Some anchorParentHeader
   \<and> 0 < CompactToBig (ASERTAnchorBits (ChainParams asertLongCtx))
   \<and> Timestamp anchorHeaderLong - Timestamp anchorParentHeader
         - seconds (TargetTimePerBlock (ChainParams asertLongCtx))
           * (scast (Height anchorHeaderLong) + 1
              - scast (ASERTHeight (ChainParams asertLongCtx)))
       = ASERTHalfLife (ChainParams asertLongCtx)
   \<and> calcNextRequiredDifficultyASERT anchorHeaderLong asertLongCtx = Inr 0x1d0c7ff3
   \<and> BigToCompact (min (2 * CompactToBig (ASERTAnchorBits (ChainParams asertLongCtx)))
                        (PowLimit (ChainParams asertLongCtx))) = 0x1d31ffce"
proof (intro conjI)
  show "findAnchor (ASERTHeight (ChainParams asertLongCtx)) anchorHeaderLong
          = Inr anchorHeaderLong"
    by (simp add: asert_eval)
  show "Parent anchorHeaderLong = Some anchorParentHeader"
    by (simp add: anchorHeaderLong_def)
  show "0 < CompactToBig (ASERTAnchorBits (ChainParams asertLongCtx))"
    by (simp add: asert_eval)
  show "Timestamp anchorHeaderLong - Timestamp anchorParentHeader
         - seconds (TargetTimePerBlock (ChainParams asertLongCtx))
           * (scast (Height anchorHeaderLong) + 1
              - scast (ASERTHeight (ChainParams asertLongCtx)))
       = ASERTHalfLife (ChainParams asertLongCtx)"
    by (simp add: asert_eval)
  show "calcNextRequiredDifficultyASERT anchorHeaderLong asertLongCtx = Inr 0x1d0c7ff3"
    by (simp add: asert_eval)
  show "BigToCompact (min (2 * CompactToBig (ASERTAnchorBits (ChainParams asertLongCtx)))
                          (PowLimit (ChainParams asertLongCtx))) = 0x1d31ffce"
    by (simp add: asert_eval)
qed

section \<open>LWMA v2 in the steady state\<close>

lemma sint_of_nat64: "k < 2 ^ 63 \<Longrightarrow> sint (of_nat k :: int64) = int k"
proof -
  assume k: "k < 2 ^ 63"
  have "sint (of_nat k :: int64) = signed_take_bit 63 (int k)"
    by (simp add: signed_of_nat)
  also have "\<dots> = int k"
    using k by (intro signed_take_bit_int_eq_self) auto
  finally show ?thesis .
qed

lemma sint_mult64:
  fixes a b :: int64
  assumes "- (2 ^ 63) \<le> sint a * sint b" "sint a * sint b < 2 ^ 63"
  shows "sint (a * b) = sint a * sint b"
proof -
  have "sint (a * b) = signed_take_bit 63 (sint a * sint b)"
    by (simp add: sint_word_ariths)
  also have "\<dots> = sint a * sint b"
    using assms by (intro signed_take_bit_int_eq_self) auto
  finally show ?thesis .
qed

lemma lwmaLoop_steady:
  assumes "steady T node k" "1 \<le> sint T" "6 * sint T < 2 ^ 63" "k < 2 ^ 63"
  shows "lwmaLoop T node (of_nat k) a b
           = (a + T * of_nat (\<Sum>{0..k}), b + of_nat (\<Sum>{0..k}))"
  using assms
proof (induction k arbitrary: node a b)
  case 0
  show ?case by (simp add: lwmaLoop.simps [of T node 0] word_sle_eq)
next
  case (Suc k)
  from Suc.prems(1) obtain p where p: "Parent node = Some p"
    and dt: "Timestamp node - Timestamp p = T" and st: "steady T p k"
    by (auto split: option.splits)
  have k: "k < 2 ^ 63" using Suc.prems(4) by simp
  have six: "sint (6 * T) = 6 * sint T"
    using Suc.prems(2,3) by (subst sint_mult64) auto
  define i :: int64 where "i = of_nat (Suc k)"
  have i: "1 \<le>s i"
    unfolding i_def using Suc.prems(4) by (simp only: word_sle_eq sint_of_nat64) simp
  have i1: "i - 1 = of_nat k" by (simp add: i_def)
  have c1: "\<not> T <s 1" using Suc.prems(2) by (simp add: word_sless_alt)
  have c2: "\<not> 6 * T <s T" using Suc.prems(2) by (simp add: word_sless_alt six)
  have "lwmaLoop T node i a b = lwmaLoop T p (of_nat k) (a + T * i) (b + i)"
    by (subst lwmaLoop.simps) (simp add: i i1 p dt c1 c2 Let_def)
  then have step: "lwmaLoop T node (of_nat (Suc k)) a b
                = lwmaLoop T p (of_nat k) (a + T * of_nat (Suc k)) (b + of_nat (Suc k))"
    by (simp only: i_def)
  have ih: "lwmaLoop T p (of_nat k) (a + T * of_nat (Suc k)) (b + of_nat (Suc k))
              = (a + T * of_nat (Suc k) + T * of_nat (\<Sum>{0..k}),
                 b + of_nat (Suc k) + of_nat (\<Sum>{0..k}))"
    by (rule Suc.IH [OF st Suc.prems(2,3) k])
  show ?case
    unfolding step ih by (simp add: algebra_simps)
qed

lemma steady_ancestor: "steady T node k \<Longrightarrow> \<exists>ws. ancestor node k = Some ws"
  by (induction k arbitrary: node) (auto split: option.splits)

lemma windowStartLoop_ancestor:
  assumes "ancestor node k = Some ws" "j + k < 2 ^ 63"
  shows "windowStartLoop node (of_nat j) (of_nat (j + k)) = ws"
  using assms
proof (induction k arbitrary: node j)
  case 0
  then have "node = ws" by simp
  moreover have "windowStartLoop ws (of_nat j) (of_nat j) = ws"
    by (subst windowStartLoop.simps) (simp add: word_sless_alt)
  ultimately show ?case by simp
next
  case (Suc k)
  from Suc.prems(1) obtain p where p: "Parent node = Some p" and anc: "ancestor p k = Some ws"
    by (auto split: option.splits)
  have sj: "sint (of_nat j :: int64) = int j"
    using Suc.prems(2) by (intro sint_of_nat64) simp
  have sjk: "sint (of_nat (j + Suc k) :: int64) = int (j + Suc k)"
    using Suc.prems(2) by (intro sint_of_nat64)
  have lt: "(of_nat j :: int64) <s of_nat (j + Suc k)"
    unfolding word_sless_alt sj sjk by simp
  have "windowStartLoop node (of_nat j) (of_nat (j + Suc k))
          = windowStartLoop p (of_nat j + 1) (of_nat (j + Suc k))"
    by (subst windowStartLoop.simps) (simp only: lt p if_True option.case)
  also have "\<dots> = windowStartLoop p (of_nat (Suc j)) (of_nat (Suc j + k))"
    by (simp add: add.commute)
  also have "\<dots> = ws"
    using Suc.prems(2) by (intro Suc.IH [OF anc]) simp
  finally show ?case .
qed

lemma sint_sdiv64_3:
  fixes e :: int64
  assumes "0 \<le> sint e"
  shows "sint (sdiv64 e 3) = sint e div 3"
proof -
  have lt: "sint e < 2 ^ 63" using sint_lt [of e] by simp
  have eq: "sint e sdiv 3 = sint e div 3"
    using assms by (simp add: signed_divide_int_def sgn_if)
  have "sint (sdiv64 e 3) = signed_take_bit 63 (sint e div 3)"
    by (simp add: sdiv64_def eq signed_of_int)
  also have "\<dots> = sint e div 3"
    using assms lt by (intro signed_take_bit_int_eq_self) auto
  finally show ?thesis .
qed

text \<open>
  C8 (as amended): for an LWMA v2 call with a full window (\<open>blocks = LWMAWindow\<close>, at
  least 3, every ancestor of the window present) in which every sampled solvetime equals
  \<open>T\<close>, the window-start target being positive and at most \<open>PowLimit\<close>, and with \<open>T\<close>
  at least one second and \<open>3 * T * N * (N + 1) / 2\<close> below \<open>2^63\<close>, the result is the
  compact encoding of the window-start block's target.
\<close>

theorem lwma2_steady_state:
  assumes full: "lwmaBlocks lastNode (ChainParams c) = LWMAWindow (ChainParams c)"
    and three: "3 \<le> sint (LWMAWindow (ChainParams c))"
    and st: "steady (seconds (TargetTimePerBlock (ChainParams c))) lastNode
               (nat (sint (LWMAWindow (ChainParams c))))"
    and ws: "ancestor lastNode (nat (sint (LWMAWindow (ChainParams c)))) = Some windowStart"
    and pos: "0 < CompactToBig (Bits windowStart)"
    and le: "CompactToBig (Bits windowStart) \<le> PowLimit (ChainParams c)"
    and T1: "1 \<le> sint (seconds (TargetTimePerBlock (ChainParams c)))"
    and nov: "3 * (sint (seconds (TargetTimePerBlock (ChainParams c)))
                * (sint (LWMAWindow (ChainParams c))
                    * (sint (LWMAWindow (ChainParams c)) + 1) div 2)) < 2 ^ 63"
  shows "calcNextRequiredDifficultyLWMAv2 lastNode c
           = Inr (BigToCompact (CompactToBig (Bits windowStart)))"
proof -
  let ?T = "seconds (TargetTimePerBlock (ChainParams c))"
  let ?N = "LWMAWindow (ChainParams c)"
  let ?ref = "CompactToBig (Bits windowStart)"
  define k where "k = nat (sint ?N)"
  define S where "S = \<Sum>{0..k}"
  define W :: int64 where "W = of_nat S"
  define E :: int64 where "E = W * ?T"
  have k3: "3 \<le> k" using three by (simp add: k_def)
  have kN: "int k = sint ?N" using three by (simp add: k_def)
  have k63: "k < 2 ^ 63" using sint_lt [of ?N] kN by simp
  have ofk: "(of_nat k :: int64) = ?N"
    using three by (simp add: k_def)
  have S_eq: "int S = sint ?N * (sint ?N + 1) div 2"
    unfolding S_def gauss_sum_nat by (simp add: zdiv_int kN [symmetric] algebra_simps)
  have S6: "6 \<le> int S"
  proof -
    have "3 * (3 + 1) \<le> sint ?N * (sint ?N + 1)"
      using three by (intro mult_mono) auto
    then show ?thesis unfolding S_eq by simp
  qed
  have TS: "3 * (sint ?T * int S) < 2 ^ 63" using nov by (simp only: S_eq)
  define P where "P = sint ?T * int S"
  have P3: "3 * P < 2 ^ 63" using TS by (simp add: P_def)
  have P6: "6 * sint ?T \<le> P"
    unfolding P_def using mult_left_mono [of 6 "int S" "sint ?T"] T1 S6
    by (simp add: mult.commute)
  have PS: "int S \<le> P"
    unfolding P_def using mult_right_mono [of 1 "sint ?T" "int S"] T1 S6 by simp
  have six: "6 * sint ?T < 2 ^ 63" using P3 P6 T1 by linarith
  have S63: "S < 2 ^ 63"
  proof -
    have "int S < 2 ^ 63" using PS P3 S6 by linarith
    then show ?thesis by (simp flip: of_nat_less_iff)
  qed
  have sW: "sint W = int S" unfolding W_def by (rule sint_of_nat64 [OF S63])
  have sE: "sint E = P"
  proof -
    have "sint W * sint ?T = P" by (simp add: sW P_def mult.commute)
    moreover have "- (2 ^ 63) \<le> P" "P < 2 ^ 63" using P3 P6 T1 by linarith+
    ultimately show ?thesis unfolding E_def by (subst sint_mult64) simp_all
  qed
  have Epos: "0 < sint E" using sE P6 T1 by linarith
  have Enz: "E \<noteq> 0" using Epos by auto
  have sE3: "sint (E * 3) = sint E * 3"
  proof -
    have "sint (3 :: int64) = 3" by simp
    moreover have "- (2 ^ 63) \<le> P * 3" "P * 3 < 2 ^ 63" using P3 P6 T1 by linarith+
    ultimately show ?thesis by (subst sint_mult64) (simp_all add: sE)
  qed
  have loop: "lwmaLoop ?T lastNode ?N 0 0 = (E, W)"
  proof -
    have "lwmaLoop ?T lastNode (of_nat k) 0 0 = (0 + ?T * of_nat S, 0 + of_nat S)"
      unfolding S_def using st T1 six k63
      by (intro lwmaLoop_steady) (simp_all add: k_def)
    then show ?thesis by (simp add: ofk E_def W_def mult.commute)
  qed
  have wsl: "windowStartLoop lastNode 0 ?N = windowStart"
  proof -
    have "ancestor lastNode k = Some windowStart" using ws by (simp add: k_def)
    from windowStartLoop_ancestor [OF this, of 0] k63
    have "windowStartLoop lastNode 0 (of_nat k) = windowStart" by simp
    then show ?thesis by (simp only: ofk)
  qed
  have b3: "\<not> ?N <s 3" using three by (simp add: word_sless_alt)
  have cmin: "\<not> E <s sdiv64 E 3"
    using Epos by (simp add: word_sless_alt sint_sdiv64_3)
  have cmax: "\<not> E * 3 <s E"
    using Epos by (simp add: word_sless_alt sE3)
  have dv: "big_Div (?ref * sint E) (sint E) = ?ref"
    using Epos by (simp add: big_Div_pos)
  have cap: "\<not> PowLimit (ChainParams c) < ?ref" using le by simp
  show ?thesis
    unfolding calcNextRequiredDifficultyLWMAv2_def Let_def full loop prod.case wsl
    using b3 cmin cmax Enz dv cap
    by (simp add: E_def [symmetric])
qed

lemma steadyChain_sel [simp]:
  "Height (steadyChain k h t T b) = h" "Timestamp (steadyChain k h t T b) = t"
  "Bits (steadyChain k h t T b) = b"
  by (cases k; simp)+

lemma steady_steadyChain: "j \<le> k \<Longrightarrow> steady T (steadyChain k h t T b) j"
proof (induction j arbitrary: k h t)
  case 0
  show ?case by simp
next
  case (Suc j)
  then obtain k' where k': "k = Suc k'" "j \<le> k'" by (cases k) auto
  show ?case unfolding k' using Suc.IH [OF k'(2)] by simp
qed

lemma ancestor_steadyChain:
  "ancestor (steadyChain k h t T b) k
     = Some (HeaderCtx (h - of_nat k) (t - of_nat k * T) b None)"
  by (induction k arbitrary: h t) (simp_all add: algebra_simps)

lemmas lwma_eval = lwmaBlocks_def seconds_def sdiv64_def MainNetParams_def mainNetCtx_def
  zeroSpacingCtx_def word_sless_alt word_sle_eq Let_def CompactToBig_def

lemma steadyTip_window_start:
  "ancestor steadyTip 45 = Some (HeaderCtx 1244355 1699993250 0x1d18ffe7 None)"
  unfolding steadyTip_def by (simp only: ancestor_steadyChain) simp

lemma zeroSpacingTip_window_start:
  "ancestor zeroSpacingTip 45 = Some (HeaderCtx 1244355 1700000000 0x1d18ffe7 None)"
  unfolding zeroSpacingTip_def by (simp only: ancestor_steadyChain) simp

theorem lwma2_steady_state_witness:
  "calcNextRequiredDifficultyLWMAv2 steadyTip mainNetCtx
     = Inr (BigToCompact (CompactToBig 0x1d18ffe7))"
proof -
  let ?ws = "HeaderCtx 1244355 1699993250 0x1d18ffe7 None"
  have full: "lwmaBlocks steadyTip (ChainParams mainNetCtx)
                = LWMAWindow (ChainParams mainNetCtx)"
    by (simp add: lwma_eval steadyTip_def)
  have three: "3 \<le> sint (LWMAWindow (ChainParams mainNetCtx))"
    by (simp add: lwma_eval)
  have st: "steady (seconds (TargetTimePerBlock (ChainParams mainNetCtx))) steadyTip
              (nat (sint (LWMAWindow (ChainParams mainNetCtx))))"
    by (simp add: lwma_eval steadyTip_def steady_steadyChain)
  have ws: "ancestor steadyTip (nat (sint (LWMAWindow (ChainParams mainNetCtx)))) = Some ?ws"
    using steadyTip_window_start by (simp add: lwma_eval)
  have pos: "0 < CompactToBig (Bits ?ws)" by (simp add: lwma_eval)
  have le: "CompactToBig (Bits ?ws) \<le> PowLimit (ChainParams mainNetCtx)"
    by (simp add: lwma_eval)
  have T1: "1 \<le> sint (seconds (TargetTimePerBlock (ChainParams mainNetCtx)))"
    by (simp add: lwma_eval)
  have nov: "3 * (sint (seconds (TargetTimePerBlock (ChainParams mainNetCtx)))
                * (sint (LWMAWindow (ChainParams mainNetCtx))
                    * (sint (LWMAWindow (ChainParams mainNetCtx)) + 1) div 2)) < 2 ^ 63"
    by (simp add: lwma_eval)
  from lwma2_steady_state [OF full three st ws pos le T1 nov] show ?thesis by simp
qed

lemma lwma2_zero_spacing:
  assumes "seconds (TargetTimePerBlock (ChainParams c)) = 0"
    and "\<not> lwmaBlocks lastNode (ChainParams c) <s 3"
  shows "calcNextRequiredDifficultyLWMAv2 lastNode c = Inl DivideByZero"
  using assms
  by (simp add: calcNextRequiredDifficultyLWMAv2_def Let_def split: prod.splits)

text \<open>
  C8 as stated fails for a window of 2 blocks: the window is full, both solvetimes equal
  \<open>T\<close> and the window-start target is positive and below \<open>PowLimit\<close>, but the guard
  \<^verbatim>\<open>if blocks < 3\<close> returns the tip's bits \<open>0x1d17ffe7\<close>, not the encoding
  \<open>0x1d18ffe7\<close> of the window-start target.
\<close>

theorem lwma2_steady_state_counterexample:
  "lwmaBlocks narrowWindowTip (ChainParams narrowWindowCtx)
     = LWMAWindow (ChainParams narrowWindowCtx)
   \<and> steady (seconds (TargetTimePerBlock (ChainParams narrowWindowCtx))) narrowWindowTip
        (nat (sint (LWMAWindow (ChainParams narrowWindowCtx))))
   \<and> ancestor narrowWindowTip (nat (sint (LWMAWindow (ChainParams narrowWindowCtx))))
       = Some narrowWindowStart
   \<and> 0 < CompactToBig (Bits narrowWindowStart)
   \<and> CompactToBig (Bits narrowWindowStart) \<le> PowLimit (ChainParams narrowWindowCtx)
   \<and> BigToCompact (CompactToBig (Bits narrowWindowStart)) = 0x1d18ffe7
   \<and> calcNextRequiredDifficultyLWMAv2 narrowWindowTip narrowWindowCtx = Inr 0x1d17ffe7"
proof (intro conjI)
  show "lwmaBlocks narrowWindowTip (ChainParams narrowWindowCtx)
          = LWMAWindow (ChainParams narrowWindowCtx)"
    by (simp add: lwma_eval narrowWindowCtx_def narrowWindowTip_def)
  show "steady (seconds (TargetTimePerBlock (ChainParams narrowWindowCtx))) narrowWindowTip
          (nat (sint (LWMAWindow (ChainParams narrowWindowCtx))))"
    by (simp add: lwma_eval narrowWindowCtx_def narrowWindowTip_def narrowWindowStart_def
          numeral_2_eq_2)
  show "ancestor narrowWindowTip (nat (sint (LWMAWindow (ChainParams narrowWindowCtx))))
          = Some narrowWindowStart"
    by (simp add: lwma_eval narrowWindowCtx_def narrowWindowTip_def numeral_2_eq_2)
  show "0 < CompactToBig (Bits narrowWindowStart)"
    by (simp add: lwma_eval narrowWindowStart_def)
  show "CompactToBig (Bits narrowWindowStart) \<le> PowLimit (ChainParams narrowWindowCtx)"
    by (simp add: lwma_eval narrowWindowCtx_def narrowWindowStart_def)
  show "BigToCompact (CompactToBig (Bits narrowWindowStart)) = 0x1d18ffe7"
    by (simp add: narrowWindowStart_def CompactToBig_def BigToCompact_def byte_len.simps)
  show "calcNextRequiredDifficultyLWMAv2 narrowWindowTip narrowWindowCtx = Inr 0x1d17ffe7"
    by (simp add: lwma_eval narrowWindowCtx_def narrowWindowTip_def
          calcNextRequiredDifficultyLWMAv2_def)
qed

text \<open>
  The steady state also needs a target time of at least one second: with a target time
  per block of zero every solvetime is clamped to \<open>6 * T = 0 = T\<close>, the expected weighted
  sum is 0 and the division panics.
\<close>

lemma lwma2_zero_spacing_example:
  "lwmaBlocks zeroSpacingTip (ChainParams zeroSpacingCtx)
     = LWMAWindow (ChainParams zeroSpacingCtx)
   \<and> steady (seconds (TargetTimePerBlock (ChainParams zeroSpacingCtx))) zeroSpacingTip
        (nat (sint (LWMAWindow (ChainParams zeroSpacingCtx))))
   \<and> ancestor zeroSpacingTip (nat (sint (LWMAWindow (ChainParams zeroSpacingCtx))))
       = Some (HeaderCtx 1244355 1700000000 0x1d18ffe7 None)
   \<and> 0 < CompactToBig 0x1d18ffe7
   \<and> CompactToBig 0x1d18ffe7 \<le> PowLimit (ChainParams zeroSpacingCtx)
   \<and> calcNextRequiredDifficultyLWMAv2 zeroSpacingTip zeroSpacingCtx = Inl DivideByZero"
proof (intro conjI)
  show "lwmaBlocks zeroSpacingTip (ChainParams zeroSpacingCtx)
          = LWMAWindow (ChainParams zeroSpacingCtx)"
    by (simp add: lwma_eval zeroSpacingTip_def)
  show "steady (seconds (TargetTimePerBlock (ChainParams zeroSpacingCtx))) zeroSpacingTip
          (nat (sint (LWMAWindow (ChainParams zeroSpacingCtx))))"
    by (simp add: lwma_eval zeroSpacingTip_def steady_steadyChain)
  show "ancestor zeroSpacingTip (nat (sint (LWMAWindow (ChainParams zeroSpacingCtx))))
          = Some (HeaderCtx 1244355 1700000000 0x1d18ffe7 None)"
    using zeroSpacingTip_window_start by (simp add: lwma_eval)
  show "0 < CompactToBig 0x1d18ffe7" by (simp add: lwma_eval)
  show "CompactToBig 0x1d18ffe7 \<le> PowLimit (ChainParams zeroSpacingCtx)"
    by (simp add: lwma_eval)
  show "calcNextRequiredDifficultyLWMAv2 zeroSpacingTip zeroSpacingCtx = Inl DivideByZero"
    by (rule lwma2_zero_spacing) (simp_all add: lwma_eval zeroSpacingTip_def)
qed

end
